theory Spec2Isabelle
  imports Complex_Main "HOL-Library.Multiset"
begin

section \<open>Errors raised by the program\<close>

text \<open>
  Every exception the modelled functions can raise is a value: \<open>IndexError\<close> for a list
  read or written out of range, \<open>NoMoreCombosError\<close> for the exhaustion signal of
  \<open>next_combo\<close>, \<open>ValueError\<close> for a failed conversion or a bad mutation number,
  \<open>UnboundLocalError\<close> for a local variable read before it is assigned.
  \<open>NonFinite\<close> is no Python exception: the model stops with it where a float of the
  program would be infinite.
\<close>

datatype error = IndexError | NoMoreCombosError | ValueError | NonFinite
  | UnboundLocalError

section \<open>exhaustive.py: dominance and the running Pareto front\<close>

text \<open>
  \<open>dominates\<close> walks \<open>zip(sol_fitness_1, sol_fitness_2)\<close> with the flag \<open>not_equal\<close>
  (here \<open>not_equal_flag\<close>): a component of the first that is greater returns \<open>False\<close> at
  once, a smaller one sets the flag, and the flag is returned at the end. Fitness values are Python numbers without NaN;
  they are modelled by any linear order.
\<close>

fun dominates_loop :: "('a::linorder \<times> 'a) list \<Rightarrow> bool \<Rightarrow> bool" where
  "dominates_loop [] not_equal_flag = not_equal_flag"
| "dominates_loop ((fitness_1, fitness_2) # rest) not_equal_flag =
     (if fitness_1 > fitness_2 then False
      else if fitness_1 < fitness_2 then dominates_loop rest True
      else dominates_loop rest not_equal_flag)"

definition dominates :: "'a::linorder list \<Rightarrow> 'a list \<Rightarrow> bool" where
  "dominates sol_fitness_1 sol_fitness_2 = dominates_loop (zip sol_fitness_1 sol_fitness_2) False"

text \<open>
  \<open>update_front\<close> runs \<open>for sol_tuple in front\<close> over the list it mutates. Python's list
  iterator keeps an index: each round reads \<open>front[i]\<close> while \<open>i < len(front)\<close> and then
  advances \<open>i\<close>, whatever the body did to the list. \<open>front.remove(x)\<close> deletes the first
  element equal to \<open>x\<close> (\<open>remove1\<close>). The loop returns the list as it stands and whether the
  new pair is to be appended (\<open>False\<close> models the early \<open>return\<close>).
\<close>

function update_front_loop ::
  "('s \<times> 'a::linorder list) list \<Rightarrow> nat \<Rightarrow> 'a list \<Rightarrow> ('s \<times> 'a list) list \<times> bool" where
  "update_front_loop front i new_sol_fitness =
     (if i < length front then
        (let sol_tuple = front ! i in
         if dominates (snd sol_tuple) new_sol_fitness then (front, False)
         else if dominates new_sol_fitness (snd sol_tuple)
              then update_front_loop (remove1 sol_tuple front) (Suc i) new_sol_fitness
         else update_front_loop front (Suc i) new_sol_fitness)
      else (front, True))"
  by pat_completeness auto
termination
  by (relation "measure (\<lambda>(front, i, f). length front - i)")
     (auto simp: length_remove1)

text \<open>
  \<open>evaluate\<close> is the fitness function applied to the new solution; the front is returned
  as the call leaves it.
\<close>

definition update_front ::
  "('s \<Rightarrow> 'a::linorder list) \<Rightarrow> ('s \<times> 'a list) list \<Rightarrow> 's \<Rightarrow> ('s \<times> 'a list) list" where
  "update_front evaluate front new_sol =
     (let new_sol_fitness = evaluate new_sol;
          new_sol_tuple = (new_sol, new_sol_fitness);
          (front', append) = update_front_loop front 0 new_sol_fitness
      in if append then front' @ [new_sol_tuple] else front')"

text \<open>The front after inserting a sequence of solutions, one call each, starting empty.\<close>

definition insert_all :: "('s \<Rightarrow> 'a::linorder list) \<Rightarrow> 's list \<Rightarrow> ('s \<times> 'a list) list" where
  "insert_all evaluate sols = foldl (update_front evaluate) [] sols"

section \<open>exhaustive.py: the mixed-radix counter\<close>

text \<open>
  \<open>next_combo\<close> scans \<open>pos\<close> from \<open>len(current) - 1\<close> down to \<open>0\<close>. The first position
  below its maximum is incremented, every position to its right is set to its minimum, and
  the function returns; when the scan ends, \<open>NoMoreCombosError\<close> is raised. The in-place
  update is returned as the new list. Reading \<open>max_values\<close> or \<open>min_values\<close> past their end
  raises \<open>IndexError\<close>. \<open>next_combo_scan k\<close> is the scan with \<open>k\<close> positions left, so
  \<open>pos = k - 1\<close>.
\<close>

fun reset_right :: "int list \<Rightarrow> int list \<Rightarrow> nat list \<Rightarrow> error + int list" where
  "reset_right current min_values [] = Inr current"
| "reset_right current min_values (i # rest) =
     (if i < length min_values
      then reset_right (current[i := min_values ! i]) min_values rest
      else Inl IndexError)"

fun next_combo_scan :: "nat \<Rightarrow> int list \<Rightarrow> int list \<Rightarrow> int list \<Rightarrow> error + int list" where
  "next_combo_scan 0 current max_values min_values = Inl NoMoreCombosError"
| "next_combo_scan (Suc pos) current max_values min_values =
     (if pos < length max_values then
        (if current ! pos < max_values ! pos
         then reset_right (current[pos := current ! pos + 1]) min_values
                [pos + 1 ..< length current]
         else next_combo_scan pos current max_values min_values)
      else Inl IndexError)"

definition next_combo :: "int list \<Rightarrow> int list \<Rightarrow> int list \<Rightarrow> error + int list" where
  "next_combo current max_values min_values =
     next_combo_scan (length current) current max_values min_values"

section \<open>tsptools.py: the branch-and-bound TSP solver\<close>

text \<open>
  Distances are Python floats; they are modelled by exact rationals, so rounding is left
  out. The only infinite value the solver computes with is the initial upper bound
  \<open>float('inf')\<close>, so costs that may be infinite have the type \<open>bound\<close>. The diagonal of a
  distance matrix (\<open>inf\<close> in the source) is never read: \<open>compute_lower_bound\<close> skips
  \<open>i == v\<close>, \<open>tsp_search\<close> only moves to vertices outside the tour, and the closing edge
  joins the last and the first vertex of a tour of \<open>n > 1\<close> different vertices. A matrix
  of the model holds any rational there.
\<close>

datatype bound = Fin rat | Infinity

fun bound_less :: "bound \<Rightarrow> bound \<Rightarrow> bool" where
  "bound_less (Fin a) (Fin b) = (a < b)"
| "bound_less (Fin a) Infinity = True"
| "bound_less Infinity b = False"

text \<open>
  \<open>compute_lower_bound\<close>: for each vertex the two smallest incident edges are recorded
  and added up; \<open>edges[1]\<close> raises \<open>IndexError\<close> when there are fewer than three points.
\<close>

fun compute_lower_bound_loop ::
  "rat list list \<Rightarrow> nat \<Rightarrow> nat list \<Rightarrow> (rat \<times> rat) list \<Rightarrow> rat
     \<Rightarrow> error + ((rat \<times> rat) list \<times> rat)" where
  "compute_lower_bound_loop distance n [] min_edge min_cost = Inr (min_edge, min_cost / 2)"
| "compute_lower_bound_loop distance n (v # vs) min_edge min_cost =
     (if v < length distance \<and> list_all (\<lambda>i. i = v \<or> i < length (distance ! v)) [0 ..< n] then
        (let edges = sort (map (\<lambda>i. distance ! v ! i) (filter (\<lambda>i. i \<noteq> v) [0 ..< n])) in
         if 1 < length edges
         then compute_lower_bound_loop distance n vs (min_edge @ [(edges ! 0, edges ! 1)])
                (min_cost + (edges ! 0 + edges ! 1))
         else Inl IndexError)
      else Inl IndexError)"

definition compute_lower_bound ::
  "rat list list \<Rightarrow> nat \<Rightarrow> error + ((rat \<times> rat) list \<times> rat)" where
  "compute_lower_bound distance n = compute_lower_bound_loop distance n [0 ..< n] [] 0"

text \<open>
  \<open>tsp_search\<close> and its \<open>for v in vertices\<close> loop, \<open>tsp_search_for\<close>, which carries
  \<open>lcl_best_tour\<close> and \<open>lcl_best_cost\<close>. The candidates are sorted by distance to the last
  vertex (Python's sort is stable, as \<open>sort_key\<close> is); the first candidate whose potential
  cost does not beat the best cost ends the loop (\<open>break\<close>). The loop runs inside the
  branch \<open>len(tour) < n\<close>; the function repeats that test so that the recursion is
  well-founded.
\<close>

function tsp_search ::
  "rat list list \<Rightarrow> nat \<Rightarrow> nat list \<Rightarrow> rat \<Rightarrow> (rat \<times> rat) list \<Rightarrow> rat
     \<Rightarrow> nat list \<Rightarrow> bound \<Rightarrow> error + (nat list \<times> bound)"
and tsp_search_for ::
  "rat list list \<Rightarrow> nat \<Rightarrow> nat list \<Rightarrow> rat \<Rightarrow> (rat \<times> rat) list \<Rightarrow> rat
     \<Rightarrow> nat list \<Rightarrow> nat list \<Rightarrow> bound \<Rightarrow> error + (nat list \<times> bound)" where
  "tsp_search distance n tour curr_cost min_edge curr_bnd best_tour best_cost =
     (if tour = [] then Inl IndexError
      else if length tour < n then
        (let last_vertex = last tour in
         if last_vertex < length distance
              \<and> list_all (\<lambda>i. i \<in> set tour \<or> i < length (distance ! last_vertex)) [0 ..< n]
         then tsp_search_for distance n tour curr_cost min_edge curr_bnd
                (sort_key (\<lambda>vertex. distance ! last_vertex ! vertex)
                   (filter (\<lambda>i. i \<notin> set tour) [0 ..< n]))
                best_tour best_cost
         else Inl IndexError)
      else if n > 1 then
        (if last tour < length distance \<and> hd tour < length (distance ! last tour)
         then Inr (tour, Fin (curr_cost + distance ! last tour ! hd tour))
         else Inl IndexError)
      else Inr (best_tour, best_cost))"
| "tsp_search_for distance n tour curr_cost min_edge curr_bnd [] lcl_best_tour lcl_best_cost =
     Inr (lcl_best_tour, lcl_best_cost)"
| "tsp_search_for distance n tour curr_cost min_edge curr_bnd (v # vertices)
       lcl_best_tour lcl_best_cost =
     (let last_vertex = last tour in
      if last_vertex < length min_edge \<and> v < length min_edge \<and> length tour < n then
        (let lcl_curr_bnd =
               (if length tour = 1
                then curr_bnd - (snd (min_edge ! last_vertex) + snd (min_edge ! v)) / 2
                else curr_bnd - (fst (min_edge ! last_vertex) + snd (min_edge ! v)) / 2) in
         if bound_less (Fin (curr_cost + distance ! last_vertex ! v + lcl_curr_bnd)) lcl_best_cost
         then
           (case tsp_search distance n (tour @ [v]) (curr_cost + distance ! last_vertex ! v)
                   min_edge lcl_curr_bnd lcl_best_tour lcl_best_cost of
              Inl e \<Rightarrow> Inl e
            | Inr (v_tour, v_cost) \<Rightarrow>
                if bound_less v_cost lcl_best_cost
                then tsp_search_for distance n tour curr_cost min_edge curr_bnd vertices
                       v_tour v_cost
                else tsp_search_for distance n tour curr_cost min_edge curr_bnd vertices
                       lcl_best_tour lcl_best_cost)
         else Inr (lcl_best_tour, lcl_best_cost))
      else Inl IndexError)"
  by pat_completeness auto
termination
  by (relation "inv_image (less_than <*lex*> less_than) (\<lambda>x. case x of
          Inl (d, n, tour, cc, me, cb, bt, bc) \<Rightarrow> (n - length tour, Suc n)
        | Inr (d, n, tour, cc, me, cb, vs, bt, bc) \<Rightarrow> (n - length tour, length vs))")
     (auto simp: less_Suc_eq_le le_trans [OF length_filter_le])

definition tsp :: "rat list list \<Rightarrow> error + (nat list \<times> bound)" where
  "tsp distance_matrix =
     (let n = length distance_matrix in
      case compute_lower_bound distance_matrix n of
        Inl e \<Rightarrow> Inl e
      | Inr (min_edge, lwr_bnd_cost) \<Rightarrow>
          tsp_search distance_matrix n [0] 0 min_edge lwr_bnd_cost [0 ..< n] Infinity)"

text \<open>The length of the closed tour that visits \<open>tour\<close> in order and returns to its start.\<close>

definition closed_tour_cost :: "rat list list \<Rightarrow> nat list \<Rightarrow> rat" where
  "closed_tour_cost distance tour =
     (\<Sum>k \<leftarrow> [0 ..< length tour]. distance ! (tour ! k) ! (tour ! ((k + 1) mod length tour)))"

section \<open>solution.py: environment, candidate solutions and fitness\<close>

text \<open>
  The class attributes of \<open>Solution\<close> that \<open>set_environment\<close> fills are the record
  \<open>env\<close>, passed to every function that reads them. Capacities and demands are Python
  ints, costs, emissions and distances are numbers read as rationals. The four counts are
  natural numbers: \<open>set_environment\<close> computes them by subtraction of lengths, which is
  the source's value whenever the matrices have the sizes of an instance (at least as many
  rows in the second-echelon matrix as clients, and in the first-echelon matrix as
  satellites).
\<close>

record env =
  capacity :: "int list"
  cost_per_km :: "rat list"
  emissions :: "rat list"
  l1_cpk :: rat
  l1_emissions :: rat
  demand :: "int list list"
  first_echelon :: "rat list list"
  second_echelon :: "rat list list"
  vehicle_nr :: nat
  client_nr :: nat
  satellite_nr :: nat
  product_nr :: nat

definition set_environment ::
  "int list \<times> rat list \<times> rat list \<times> rat \<times> rat \<Rightarrow> int list list \<Rightarrow> rat list list
     \<Rightarrow> rat list list \<Rightarrow> env" where
  "set_environment vehicles demand_matrix first_echelon_matrix second_echelon_matrix =
     (case vehicles of (cap, cpk, emis, l1c, l1e) \<Rightarrow>
        \<lparr> capacity = cap, cost_per_km = cpk, emissions = emis, l1_cpk = l1c, l1_emissions = l1e,
          demand = demand_matrix,
          first_echelon = first_echelon_matrix,
          second_echelon = second_echelon_matrix,
          vehicle_nr = length cap,
          client_nr = length demand_matrix,
          satellite_nr = length second_echelon_matrix - length demand_matrix,
          product_nr = length first_echelon_matrix
                         - (length second_echelon_matrix - length demand_matrix) \<rparr>)"

text \<open>
  A \<open>Solution\<close> object. Vehicle numbers in \<open>product_delivery\<close> and satellite numbers in
  \<open>starting_points\<close> are natural numbers, \<open>0\<close> meaning none, as every generator and
  operator of the source writes them. The placeholder \<open>[False]\<close> of \<open>sat_demand\<close>, which
  equals no matrix \<open>satellite_demand\<close> returns, is \<open>None\<close>. The field \<open>log\<close> is \<open>log_s\<close>.
  \<open>solution_eq\<close> is \<open>__eq__\<close>: starting points and product delivery only.
\<close>

record solution =
  starting_points :: "nat list"
  client_order :: "nat list list"
  product_delivery :: "nat list list"
  l1_distance :: rat
  l1_routes :: "nat list list"
  l2_distance :: "rat list"
  l2_clients :: "nat list list"
  sat_demand :: "bool list list option"
  log_s :: "string list"

definition Solution ::
  "env \<Rightarrow> nat list \<Rightarrow> nat list list \<Rightarrow> nat list list \<Rightarrow> string \<Rightarrow> solution" where
  "Solution e sp co pd initial_log =
     \<lparr> starting_points = sp, client_order = co, product_delivery = pd,
       l1_distance = 0, l1_routes = [], l2_distance = [],
       l2_clients = replicate (vehicle_nr e) [],
       sat_demand = None, log_s = [initial_log] \<rparr>"

definition solution_eq :: "solution \<Rightarrow> solution \<Rightarrow> bool" where
  "solution_eq a b \<longleftrightarrow>
     starting_points a = starting_points b \<and> product_delivery a = product_delivery b"

text \<open>
  Loops that may raise: \<open>fold_err\<close> runs a loop body over a list and stops at the first
  exception, \<open>map_err\<close> is a list comprehension whose element expression may raise, and
  \<open>entry\<close> is \<open>matrix[row][column]\<close> with non-negative indices.
\<close>

fun fold_err :: "('a \<Rightarrow> 's \<Rightarrow> error + 's) \<Rightarrow> 'a list \<Rightarrow> 's \<Rightarrow> error + 's" where
  "fold_err f [] s = Inr s"
| "fold_err f (x # xs) s = (case f x s of Inl e \<Rightarrow> Inl e | Inr s' \<Rightarrow> fold_err f xs s')"

fun map_err :: "('a \<Rightarrow> error + 'b) \<Rightarrow> 'a list \<Rightarrow> error + 'b list" where
  "map_err f [] = Inr []"
| "map_err f (x # xs) =
     (case f x of Inl e \<Rightarrow> Inl e
      | Inr y \<Rightarrow> (case map_err f xs of Inl e \<Rightarrow> Inl e | Inr ys \<Rightarrow> Inr (y # ys)))"

definition entry :: "'a list list \<Rightarrow> nat \<Rightarrow> nat \<Rightarrow> error + 'a" where
  "entry matrix row column =
     (if row < length matrix \<and> column < length (matrix ! row)
      then Inr (matrix ! row ! column) else Inl IndexError)"

definition make_submatrix :: "'a list list \<Rightarrow> nat list \<Rightarrow> error + 'a list list" where
  "make_submatrix matrix indices =
     map_err (\<lambda>row. map_err (\<lambda>column. entry matrix row column) indices) indices"

text \<open>
  \<open>satellite_demand\<close>: the loop over clients and products marks, for every delivered
  product, the satellite its vehicle starts from. For a vehicle with starting point \<open>0\<close>
  the source computes the index \<open>-1\<close>, which in Python is the last row.
\<close>

definition cells :: "env \<Rightarrow> (nat \<times> nat) list" where
  "cells e = concat (map (\<lambda>client. map (\<lambda>product. (client, product)) [0 ..< product_nr e])
                      [0 ..< client_nr e])"

definition satellite_demand_step ::
  "solution \<Rightarrow> nat \<times> nat \<Rightarrow> bool list list \<Rightarrow> error + bool list list" where
  "satellite_demand_step s cp sd =
     (case cp of (client, product) \<Rightarrow>
        (case entry (product_delivery s) client product of
           Inl e \<Rightarrow> Inl e
         | Inr veh1 \<Rightarrow>
             if veh1 = 0 then Inr sd
             else if veh1 - 1 < length (starting_points s) then
               (let sp = starting_points s ! (veh1 - 1);
                    sat = (if sp = 0 then length sd - 1 else sp - 1)
                in if sp \<le> length sd \<and> 0 < length sd
                   then Inr (sd[sat := (sd ! sat)[product := True]])
                   else Inl IndexError)
             else Inl IndexError))"

definition satellite_demand :: "env \<Rightarrow> solution \<Rightarrow> error + bool list list" where
  "satellite_demand e s =
     fold_err (satellite_demand_step s) (cells e)
       (replicate (satellite_nr e) (replicate (product_nr e) False))"

text \<open>
  \<open>compute_first_echelon_indices\<close>: for each depot the list that starts with the depot's
  own index and goes on with the index (\<open>product_nr + sat\<close>) of each satellite that needs
  the product.
\<close>

definition compute_first_echelon_indices :: "env \<Rightarrow> bool list list \<Rightarrow> error + nat list list" where
  "compute_first_echelon_indices e sd =
     map_err (\<lambda>product.
        case map_err (\<lambda>sat. entry sd sat product) [0 ..< satellite_nr e] of
          Inl err \<Rightarrow> Inl err
        | Inr flags \<Rightarrow>
            Inr (product # map (\<lambda>sat. product_nr e + sat)
                             (filter (\<lambda>sat. flags ! sat) [0 ..< satellite_nr e])))
       [0 ..< product_nr e]"

text \<open>
  \<open>first_echelon_distances\<close>. The branches of the loop body on \<open>len(indices[i])\<close> give
  the tour and its length (\<open>first_echelon_tour\<close>, \<open>None\<close> for the last branch, which only
  appends \<open>[i]\<close>); \<open>first_echelon_step\<close> is the loop body and builds the route. The
  distance is a rational: where \<open>tsp\<close> would return the cost \<open>inf\<close> the model stops with
  \<open>NonFinite\<close> (\<open>tsp_finite\<close>); a search over three or more points always finds a tour,
  so this concerns no call the program makes.
\<close>

definition tsp_finite :: "rat list list \<Rightarrow> error + (nat list \<times> rat)" where
  "tsp_finite distance_matrix =
     (case tsp distance_matrix of
        Inl e \<Rightarrow> Inl e
      | Inr (tour, Fin cost) \<Rightarrow> Inr (tour, cost)
      | Inr (tour, Infinity) \<Rightarrow> Inl NonFinite)"

definition first_echelon_tour :: "env \<Rightarrow> nat list \<Rightarrow> error + (nat list \<times> rat) option" where
  "first_echelon_tour e idx =
     (if length idx = 2 then
        (case entry (first_echelon e) (idx ! 0) (idx ! 1) of
           Inl err \<Rightarrow> Inl err
         | Inr d01 \<Rightarrow> Inr (Some ([0, 1], d01 * 2)))
      else if length idx = 3 then
        (case entry (first_echelon e) (idx ! 0) (idx ! 1) of
           Inl err \<Rightarrow> Inl err
         | Inr d01 \<Rightarrow>
        (case entry (first_echelon e) (idx ! 1) (idx ! 2) of
           Inl err \<Rightarrow> Inl err
         | Inr d12 \<Rightarrow>
        (case entry (first_echelon e) (idx ! 2) (idx ! 0) of
           Inl err \<Rightarrow> Inl err
         | Inr d20 \<Rightarrow> Inr (Some ([0, 1, 2], d01 + d12 + d20)))))
      else if length idx > 3 then
        (case make_submatrix (first_echelon e) idx of
           Inl err \<Rightarrow> Inl err
         | Inr distance_matrix \<Rightarrow>
             (case tsp_finite distance_matrix of
                Inl err \<Rightarrow> Inl err
              | Inr (tour, tspdist) \<Rightarrow> Inr (Some (tour, tspdist))))
      else Inr None)"

definition first_echelon_step ::
  "env \<Rightarrow> nat list list \<Rightarrow> nat \<Rightarrow> nat list list \<times> rat \<Rightarrow> error + (nat list list \<times> rat)" where
  "first_echelon_step e indices i acc =
     (case acc of (routes, dist_l1) \<Rightarrow>
        if i < length indices then
          (case first_echelon_tour e (indices ! i) of
             Inl err \<Rightarrow> Inl err
           | Inr None \<Rightarrow> Inr (routes @ [[i]], dist_l1)
           | Inr (Some (tour, tspdist)) \<Rightarrow>
               if list_all (\<lambda>k. k < length (indices ! i)) tour \<and> tour \<noteq> []
               then Inr (routes @ [(map (\<lambda>k. indices ! i ! k - product_nr e + 1) tour)[0 := i]],
                         dist_l1 + tspdist)
               else Inl IndexError)
        else Inl IndexError)"

definition first_echelon_distances :: "env \<Rightarrow> solution \<Rightarrow> error + (rat \<times> solution)" where
  "first_echelon_distances e s =
     (case satellite_demand e s of
        Inl err \<Rightarrow> Inl err
      | Inr curr_sat_demand \<Rightarrow>
          if sat_demand s = Some curr_sat_demand then Inr (l1_distance s, s)
          else
            (case compute_first_echelon_indices e curr_sat_demand of
               Inl err \<Rightarrow> Inl err
             | Inr indices \<Rightarrow>
                 (case fold_err (first_echelon_step e indices) [0 ..< product_nr e] ([], 0) of
                    Inl err \<Rightarrow> Inl err
                  | Inr (routes, dist_l1) \<Rightarrow>
                      Inr (dist_l1, s\<lparr> sat_demand := Some curr_sat_demand,
                                    l1_routes := routes, l1_distance := dist_l1 \<rparr>))))"

text \<open>
  \<open>second_echelon_distances\<close>. The comprehension for \<open>clients_served\<close> is
  \<open>compute_clients_served\<close>. \<open>vehicle_distance\<close> is the loop body for one vehicle: the
  cached distance when the vehicle's clients are the recorded ones and not empty (the third
  conjunct of the source, \<open>self.starting_points > 0\<close>, compares a list with an int and is
  always true in Python 2), else the route from the starting satellite through the clients
  sorted by their order (stable sort) and back; \<open>serve_order[0]\<close> raises \<open>IndexError\<close>
  for a vehicle with a starting point and no client.
\<close>

definition compute_clients_served :: "env \<Rightarrow> solution \<Rightarrow> error + nat list list" where
  "compute_clients_served e s =
     (if client_nr e \<le> length (product_delivery s)
      then Inr (map (\<lambda>ve. filter (\<lambda>cl. ve + 1 \<in> set (product_delivery s ! cl)) [0 ..< client_nr e])
                  [0 ..< vehicle_nr e])
      else if vehicle_nr e = 0 then Inr []
      else Inl IndexError)"

fun path_distance :: "rat list list \<Rightarrow> nat list \<Rightarrow> error + rat" where
  "path_distance matrix (a # b # rest) =
     (case entry matrix a b of
        Inl err \<Rightarrow> Inl err
      | Inr d \<Rightarrow> (case path_distance matrix (b # rest) of
                    Inl err \<Rightarrow> Inl err
                  | Inr rest_d \<Rightarrow> Inr (d + rest_d)))"
| "path_distance matrix rest = Inr 0"

definition vehicle_distance :: "env \<Rightarrow> solution \<Rightarrow> nat list \<Rightarrow> nat \<Rightarrow> error + rat" where
  "vehicle_distance e s veh_clients veh =
     (if veh < length (l2_clients s) then
        (if veh_clients = l2_clients s ! veh \<and> length veh_clients > 0 then
           (if veh < length (l2_distance s) then Inr (l2_distance s ! veh) else Inl IndexError)
         else if veh < length (starting_points s) then
           (if starting_points s ! veh > 0 then
              (case map_err (\<lambda>client. case entry (client_order s) client veh of
                                          Inl err \<Rightarrow> Inl err
                                        | Inr ord \<Rightarrow> Inr (client, ord)) veh_clients of
                 Inl err \<Rightarrow> Inl err
               | Inr pairs \<Rightarrow>
                   (let serve_order = sort_key snd pairs;
                        origin_index = starting_points s ! veh - 1
                    in if serve_order = [] then Inl IndexError
                       else
                         (case entry (second_echelon e) origin_index
                                 (fst (serve_order ! 0) + satellite_nr e) of
                            Inl err \<Rightarrow> Inl err
                          | Inr d_first \<Rightarrow>
                         (case path_distance (second_echelon e)
                                 (map (\<lambda>p. fst p + satellite_nr e) serve_order) of
                            Inl err \<Rightarrow> Inl err
                          | Inr d_between \<Rightarrow>
                         (case entry (second_echelon e) (fst (last serve_order) + satellite_nr e)
                                 origin_index of
                            Inl err \<Rightarrow> Inl err
                          | Inr d_last \<Rightarrow> Inr (0 + d_first + d_between + d_last))))))
            else Inr 0)
         else Inl IndexError)
      else Inl IndexError)"

definition second_echelon_distances :: "env \<Rightarrow> solution \<Rightarrow> error + (rat list \<times> solution)" where
  "second_echelon_distances e s =
     (case compute_clients_served e s of
        Inl err \<Rightarrow> Inl err
      | Inr clients_served \<Rightarrow>
          (case map_err (\<lambda>veh. vehicle_distance e s (clients_served ! veh) veh)
                  [0 ..< vehicle_nr e] of
             Inl err \<Rightarrow> Inl err
           | Inr dist_l2 \<Rightarrow>
               Inr (dist_l2, s\<lparr> l2_distance := dist_l2, l2_clients := clients_served \<rparr>)))"

text \<open>
  The four fitness functions and \<open>evaluate\<close>, which calls them in turn on the same
  object; each returns its value and the object with its caches as the call leaves them.
\<close>

definition first_echelon_cost :: "env \<Rightarrow> solution \<Rightarrow> error + (rat \<times> solution)" where
  "first_echelon_cost e s =
     (case first_echelon_distances e s of
        Inl err \<Rightarrow> Inl err
      | Inr (dist_l1, s') \<Rightarrow> Inr (dist_l1 * l1_cpk e, s'))"

definition weighted_sum :: "nat \<Rightarrow> rat list \<Rightarrow> rat list \<Rightarrow> rat \<Rightarrow> error + rat" where
  "weighted_sum n values weights start =
     fold_err (\<lambda>veh acc. if veh < length values \<and> veh < length weights
                            then Inr (acc + values ! veh * weights ! veh)
                            else Inl IndexError) [0 ..< n] start"

definition second_echelon_cost :: "env \<Rightarrow> solution \<Rightarrow> error + (rat \<times> solution)" where
  "second_echelon_cost e s =
     (case second_echelon_distances e s of
        Inl err \<Rightarrow> Inl err
      | Inr (vehicle_distances, s') \<Rightarrow>
          (case weighted_sum (vehicle_nr e) vehicle_distances (cost_per_km e) 0 of
             Inl err \<Rightarrow> Inl err
           | Inr cost \<Rightarrow> Inr (cost, s')))"

definition nr_vehicles_used :: "env \<Rightarrow> solution \<Rightarrow> error + nat" where
  "nr_vehicles_used e s =
     fold_err (\<lambda>veh nr. if veh < length (starting_points s)
                           then Inr (if starting_points s ! veh > 0 then nr + 1 else nr)
                           else Inl IndexError) [0 ..< vehicle_nr e] (product_nr e)"

definition total_emissions :: "env \<Rightarrow> solution \<Rightarrow> error + (rat \<times> solution)" where
  "total_emissions e s =
     (case first_echelon_distances e s of
        Inl err \<Rightarrow> Inl err
      | Inr (dist_l1, s1) \<Rightarrow>
          (case second_echelon_distances e s1 of
             Inl err \<Rightarrow> Inl err
           | Inr (vehicle_distances, s2) \<Rightarrow>
               (case weighted_sum (vehicle_nr e) vehicle_distances (emissions e)
                       (dist_l1 * l1_emissions e) of
                  Inl err \<Rightarrow> Inl err
                | Inr emis \<Rightarrow> Inr (emis, s2))))"

definition evaluate :: "env \<Rightarrow> solution \<Rightarrow> error + (rat list \<times> solution)" where
  "evaluate e individual =
     (case first_echelon_cost e individual of
        Inl err \<Rightarrow> Inl err
      | Inr (a, s1) \<Rightarrow>
     (case second_echelon_cost e s1 of
        Inl err \<Rightarrow> Inl err
      | Inr (b, s2) \<Rightarrow>
     (case nr_vehicles_used e s2 of
        Inl err \<Rightarrow> Inl err
      | Inr c \<Rightarrow>
     (case total_emissions e s2 of
        Inl err \<Rightarrow> Inl err
      | Inr (d, s3) \<Rightarrow> Inr ([a, b, of_nat c, d], s3)))))"

text \<open>
  The first-echelon distance as the specification describes it, from the number of
  satellites a depot must serve: \<open>served_satellites\<close> lists them, \<open>depot_distance\<close> is the
  contribution of one depot, \<open>first_echelon_total\<close> the sum over the depots. \<open>tsp_cost\<close> is
  the cost \<open>tsp\<close> returns and \<open>submatrix\<close> the matrix restricted to the given indices.
  \<open>l1_cache_ok\<close> says that a cached first-echelon distance is the one of the cached
  satellite demand.
\<close>

definition served_satellites :: "env \<Rightarrow> bool list list \<Rightarrow> nat \<Rightarrow> nat list" where
  "served_satellites e sd product = filter (\<lambda>sat. sd ! sat ! product) [0 ..< satellite_nr e]"

definition tsp_cost :: "rat list list \<Rightarrow> rat" where
  "tsp_cost distance_matrix =
     (case tsp distance_matrix of Inr (tour, Fin c) \<Rightarrow> c | Inr (tour, Infinity) \<Rightarrow> 0 | Inl err \<Rightarrow> 0)"

definition submatrix :: "'a list list \<Rightarrow> nat list \<Rightarrow> 'a list list" where
  "submatrix matrix indices = map (\<lambda>row. map (\<lambda>column. matrix ! row ! column) indices) indices"

definition depot_distance :: "env \<Rightarrow> nat \<Rightarrow> nat list \<Rightarrow> rat" where
  "depot_distance e depot sats =
     (let d = (\<lambda>a b. first_echelon e ! a ! b); sat = (\<lambda>k. product_nr e + sats ! k) in
      if length sats = 0 then 0
      else if length sats = 1 then 2 * d depot (sat 0)
      else if length sats = 2 then d depot (sat 0) + d (sat 0) (sat 1) + d (sat 1) depot
      else tsp_cost (submatrix (first_echelon e) (depot # map (\<lambda>s. product_nr e + s) sats)))"

definition first_echelon_total :: "env \<Rightarrow> bool list list \<Rightarrow> rat" where
  "first_echelon_total e sd =
     (\<Sum>depot \<leftarrow> [0 ..< product_nr e]. depot_distance e depot (served_satellites e sd depot))"

definition l1_cache_ok :: "env \<Rightarrow> solution \<Rightarrow> bool" where
  "l1_cache_ok e s =
     (case sat_demand s of None \<Rightarrow> True | Some sd \<Rightarrow> l1_distance s = first_echelon_total e sd)"

text \<open>
  Two small instances for concrete runs. \<open>instance_a\<close>: two depots, three satellites, two
  clients, two vehicles. \<open>instance_b\<close>: one depot, two satellites, two clients, two
  vehicles.
\<close>

definition instance_a :: env where
  "instance_a = set_environment ([10, 10], [1, 2], [3, 4], 5, 7) [[1, 0], [2, 3]]
     [[0, 0, 3, 4, 5], [0, 0, 6, 7, 8], [3, 6, 0, 1, 2], [4, 7, 1, 0, 3], [5, 8, 2, 3, 0]]
     [[0, 1, 2, 3, 4], [1, 0, 2, 3, 4], [2, 2, 0, 3, 4], [3, 3, 3, 0, 4], [4, 4, 4, 4, 0]]"

definition instance_b :: env where
  "instance_b = set_environment ([10, 10], [1, 1], [1, 1], 1, 1) [[1], [1]]
     [[0, 6, 7], [6, 0, 1], [7, 1, 0]]
     [[0, 1, 2, 3], [1, 0, 3, 2], [2, 3, 0, 1], [3, 2, 1, 0]]"

text \<open>
  Candidate solutions on these instances, as the constructor builds them from starting
  points, client order and product delivery.
\<close>

definition solution_a :: solution where
  "solution_a = Solution instance_a [1, 2] [[1, 1], [2, 2]] [[1, 0], [2, 1]] ''Order''"

definition solution_b1 :: solution where
  "solution_b1 = Solution instance_b [1, 1] [[1, 0], [0, 1]] [[1], [2]] ''Order''"

definition solution_b2 :: solution where
  "solution_b2 = Solution instance_b [1, 2] [[1, 0], [0, 1]] [[1], [2]] ''Order''"

section \<open>dataprocess.py: reading an instance file\<close>

text \<open>
  \<open>obtain_input_data\<close> reads the lines of the file, strips trailing tabs from each
  (\<open>rstrip\<close> with the tab as argument; the newline that ends a line stays) and splits
  it at every run of tabs (\<open>re.split\<close>, which gives an empty first token for a line that
  starts with a tab).
  \<open>bind_err\<close> passes a value on or stops at an exception.
\<close>

definition bind_err :: "error + 'a \<Rightarrow> ('a \<Rightarrow> error + 'b) \<Rightarrow> error + 'b" where
  "bind_err m f = (case m of Inl e \<Rightarrow> Inl e | Inr x \<Rightarrow> f x)"

definition tab :: char where
  "tab = CHR 0x09"

definition newline :: char where
  "newline = CHR 0x0A"

definition rstrip_tabs :: "string \<Rightarrow> string" where
  "rstrip_tabs line = rev (dropWhile (\<lambda>c. c = tab) (rev line))"

fun split_tabs_from :: "string \<Rightarrow> bool \<Rightarrow> string \<Rightarrow> string list" where
  "split_tabs_from token in_tabs [] = [token]"
| "split_tabs_from token in_tabs (c # cs) =
     (if c = tab then
        (if in_tabs then split_tabs_from [] True cs else token # split_tabs_from [] True cs)
      else split_tabs_from (token @ [c]) False cs)"

definition split_tabs :: "string \<Rightarrow> string list" where
  "split_tabs line = split_tabs_from [] False line"

text \<open>
  Indices computed from the numbers of the first line are Python ints: \<open>py_nth\<close> is
  indexing with a negative index counting from the end, \<open>py_range\<close> is \<open>range(a, b)\<close> and
  \<open>py_slice_from\<close> is \<open>xs[i:]\<close>. The built-in conversions \<open>float\<close> and \<open>int\<close> are the
  parameters \<open>float_of\<close> and \<open>int_of\<close> (\<open>None\<close> is \<open>ValueError\<close>); \<open>field\<close> is
  \<open>conv(data[x][y])\<close>.
\<close>

definition py_nth :: "'a list \<Rightarrow> int \<Rightarrow> error + 'a" where
  "py_nth xs i =
     (if 0 \<le> i \<and> i < int (length xs) then Inr (xs ! nat i)
      else if i < 0 \<and> - int (length xs) \<le> i then Inr (xs ! nat (int (length xs) + i))
      else Inl IndexError)"

definition py_range :: "int \<Rightarrow> int \<Rightarrow> int list" where
  "py_range a b = [a .. b - 1]"

definition py_slice_from :: "'a list \<Rightarrow> int \<Rightarrow> 'a list" where
  "py_slice_from xs i = (if i < 0 then drop (nat (int (length xs) + i)) xs else drop (nat i) xs)"

definition convert :: "(string \<Rightarrow> 'a option) \<Rightarrow> string \<Rightarrow> error + 'a" where
  "convert conv token = (case conv token of None \<Rightarrow> Inl ValueError | Some v \<Rightarrow> Inr v)"

definition field :: "(string \<Rightarrow> 'a option) \<Rightarrow> string list list \<Rightarrow> int \<Rightarrow> int \<Rightarrow> error + 'a" where
  "field conv data x y =
     bind_err (py_nth data x) (\<lambda>line. bind_err (py_nth line y) (\<lambda>token. convert conv token))"

text \<open>
  \<open>vehicle_type_step\<close> is the body of the loop over the vehicle-type lines and
  \<open>obtain_input_data\<close> the function; the list \<open>vehicles\<close> it returns is a tuple here.
\<close>

definition vehicle_type_step ::
  "(string \<Rightarrow> rat option) \<Rightarrow> (string \<Rightarrow> int option) \<Rightarrow> string list
     \<Rightarrow> int list \<times> rat list \<times> int list \<Rightarrow> error + (int list \<times> rat list \<times> int list)" where
  "vehicle_type_step float_of int_of line acc =
     (case acc of (l2_capacity, l2_cpk, l2_emissions) \<Rightarrow>
        bind_err (bind_err (py_nth line 4) (convert int_of)) (\<lambda>quantity.
        bind_err (bind_err (py_nth line 1) (convert int_of)) (\<lambda>cap.
        bind_err (bind_err (py_nth line 2) (convert float_of)) (\<lambda>cpk.
        bind_err (bind_err (py_nth line 3) (convert int_of)) (\<lambda>emis.
          Inr (l2_capacity @ replicate (nat quantity) cap,
               l2_cpk @ replicate (nat quantity) cpk,
               l2_emissions @ replicate (nat quantity) emis))))))"

definition obtain_input_data ::
  "(string \<Rightarrow> rat option) \<Rightarrow> (string \<Rightarrow> int option) \<Rightarrow> string list
     \<Rightarrow> error + (rat list list \<times> rat list list \<times> int list list
                  \<times> (int list \<times> rat list \<times> int list \<times> rat \<times> int))" where
  "obtain_input_data float_of int_of lines =
     (let data = map (\<lambda>line. split_tabs (rstrip_tabs line)) lines in
      bind_err (field int_of data 0 0) (\<lambda>nr_depots.
      bind_err (field int_of data 0 1) (\<lambda>nr_satellites.
      bind_err (field int_of data 0 2) (\<lambda>nr_clients.
        let e1_nr = nr_depots + nr_satellites;
            e2_nr = nr_satellites + nr_clients in
        bind_err (map_err (\<lambda>x. map_err (\<lambda>y. field float_of data x y) (py_range 1 (e1_nr + 1)))
                    (py_range 1 (e1_nr + 1))) (\<lambda>e1.
        bind_err (map_err (\<lambda>x. map_err (\<lambda>y. field float_of data x y) (py_range 1 (e2_nr + 1)))
                    (py_range (1 + e1_nr) (e1_nr + e2_nr + 1))) (\<lambda>e2.
        let dmd_start = 1 + e1_nr + e2_nr;
            dmd_end = dmd_start + nr_clients in
        bind_err (map_err (\<lambda>x. map_err (\<lambda>y. field int_of data x y) (py_range 0 nr_depots))
                    (py_range dmd_start dmd_end)) (\<lambda>demand_matrix.
        bind_err (field float_of data dmd_end 2) (\<lambda>l1_cpk_v.
        bind_err (field int_of data dmd_end 3) (\<lambda>l1_emissions_v.
        bind_err (fold_err (vehicle_type_step float_of int_of)
                    (py_slice_from data (dmd_end + 1)) ([], [], [])) (\<lambda>l2.
          case l2 of (l2_capacity, l2_cpk, l2_emissions) \<Rightarrow>
            Inr (e1, e2, demand_matrix,
                 (l2_capacity, l2_cpk, l2_emissions, l1_cpk_v, l1_emissions_v))))))))))))"

text \<open>
  A concrete conversion for runs on example files: \<open>decimal\<close> reads an optionally signed
  decimal integer between white space, as \<open>int\<close> does.
\<close>

definition is_space :: "char \<Rightarrow> bool" where
  "is_space c = (c \<in> set [CHR '' '', CHR 0x09, CHR 0x0A, CHR 0x0B, CHR 0x0C, CHR 0x0D])"

definition strip :: "string \<Rightarrow> string" where
  "strip s = rev (dropWhile is_space (rev (dropWhile is_space s)))"

definition digit_value :: "char \<Rightarrow> nat option" where
  "digit_value c =
     (let k = (of_char c :: nat) in if 48 \<le> k \<and> k \<le> 57 then Some (k - 48) else None)"

fun digits_value :: "nat \<Rightarrow> string \<Rightarrow> nat option" where
  "digits_value acc [] = Some acc"
| "digits_value acc (c # cs) =
     (case digit_value c of None \<Rightarrow> None | Some d \<Rightarrow> digits_value (10 * acc + d) cs)"

definition decimal :: "string \<Rightarrow> int option" where
  "decimal s =
     (case strip s of
        [] \<Rightarrow> None
      | c # cs \<Rightarrow>
          if c = CHR ''-'' then (if cs = [] then None else map_option (\<lambda>n. - int n) (digits_value 0 cs))
          else if c = CHR ''+'' then (if cs = [] then None else map_option int (digits_value 0 cs))
          else map_option int (digits_value 0 (c # cs)))"

text \<open>
  The instance file of the claim: \<open>line_of\<close> joins the tokens of a line with tabs and
  ends it with a newline. \<open>instance_file\<close> writes the counts, the two distance matrices
  with a label in column 0, the demand rows (after a label when \<open>demand_labelled\<close>, from
  column 0 otherwise), the first-echelon vehicle line and one line per vehicle type
  (capacity, cost per km, emissions, quantity), with \<open>sf\<close> and \<open>si\<close> as the notations of
  floats and ints. \<open>expand_types\<close> repeats each type's values quantity-many times.
\<close>

definition line_of :: "string list \<Rightarrow> string" where
  "line_of tokens = concat (map (\<lambda>t. t @ [tab]) (butlast tokens)) @ (if tokens = [] then [] else last tokens) @ [newline]"

definition instance_file ::
  "(rat \<Rightarrow> string) \<Rightarrow> (int \<Rightarrow> string) \<Rightarrow> string \<Rightarrow> bool \<Rightarrow> nat \<times> nat \<times> nat
     \<Rightarrow> rat list list \<Rightarrow> rat list list \<Rightarrow> int list list \<Rightarrow> rat \<times> int
     \<Rightarrow> (int \<times> rat \<times> int \<times> nat) list \<Rightarrow> string list" where
  "instance_file sf si label demand_labelled counts e1 e2 dmd l1 types =
     (case counts of (nd, ns, nc) \<Rightarrow>
        [line_of [si (int nd), si (int ns), si (int nc)]]
        @ map (\<lambda>row. line_of (label # map sf row)) e1
        @ map (\<lambda>row. line_of (label # map sf row)) e2
        @ map (\<lambda>row. line_of ((if demand_labelled then [label] else []) @ map si row)) dmd
        @ [line_of [label, label, sf (fst l1), si (snd l1)]]
        @ map (\<lambda>ty. case ty of (cap, cpk, emis, quantity) \<Rightarrow>
                 line_of [label, si cap, sf cpk, si emis, si (int quantity)]) types)"

definition expand_types ::
  "(int \<times> rat \<times> int \<times> nat) list \<Rightarrow> int list \<times> rat list \<times> int list" where
  "expand_types types =
     (concat (map (\<lambda>ty. case ty of (cap, cpk, emis, quantity) \<Rightarrow> replicate quantity cap) types),
      concat (map (\<lambda>ty. case ty of (cap, cpk, emis, quantity) \<Rightarrow> replicate quantity cpk) types),
      concat (map (\<lambda>ty. case ty of (cap, cpk, emis, quantity) \<Rightarrow> replicate quantity emis) types))"

text \<open>
  \<open>token_ok\<close>: a token that survives splitting (not empty, no tab); \<open>tokens_of_line\<close>:
  the tokens read back from a line, the last one with the newline. \<open>notation_ok\<close>: the
  conversion reads each of the listed values back from its notation, also when the newline
  follows. \<open>well_sized\<close>: the matrices have the sizes the counts announce.
\<close>

definition token_ok :: "string \<Rightarrow> bool" where
  "token_ok t \<longleftrightarrow> t \<noteq> [] \<and> tab \<notin> set t"

definition tokens_of_line :: "string list \<Rightarrow> string list" where
  "tokens_of_line tokens = (if tokens = [] then [[newline]] else butlast tokens @ [last tokens @ [newline]])"

definition notation_ok :: "(string \<Rightarrow> 'a option) \<Rightarrow> ('a \<Rightarrow> string) \<Rightarrow> 'a list \<Rightarrow> bool" where
  "notation_ok conv shw xs =
     list_all (\<lambda>x. token_ok (shw x) \<and> conv (shw x) = Some x \<and> conv (shw x @ [newline]) = Some x) xs"

definition well_sized ::
  "nat \<times> nat \<times> nat \<Rightarrow> rat list list \<Rightarrow> rat list list \<Rightarrow> int list list \<Rightarrow> bool" where
  "well_sized counts e1 e2 dmd =
     (case counts of (nd, ns, nc) \<Rightarrow>
        length e1 = nd + ns \<and> list_all (\<lambda>row. length row = nd + ns) e1
        \<and> length e2 = ns + nc \<and> list_all (\<lambda>row. length row = ns + nc) e2
        \<and> length dmd = nc \<and> list_all (\<lambda>row. length row = nd) dmd)"

definition type_tokens ::
  "(rat \<Rightarrow> string) \<Rightarrow> (int \<Rightarrow> string) \<Rightarrow> string \<Rightarrow> int \<times> rat \<times> int \<times> nat \<Rightarrow> string list" where
  "type_tokens sf si label ty =
     (case ty of (cap, cpk, emis, quantity) \<Rightarrow> [label, si cap, sf cpk, si emis, si (int quantity)])"

text \<open>
  Decimal notation for runs on example files (\<open>show_whole\<close> for whole-numbered
  distances).
\<close>

function show_nat :: "nat \<Rightarrow> string" where
  "show_nat n = (if n < 10 then [char_of (48 + n)] else show_nat (n div 10) @ [char_of (48 + n mod 10)])"
  by pat_completeness auto
termination
  by (relation "measure (\<lambda>n. n)") auto

definition show_int :: "int \<Rightarrow> string" where
  "show_int i = (if i < 0 then CHR ''-'' # show_nat (nat (- i)) else show_nat (nat i))"

definition show_whole :: "rat \<Rightarrow> string" where
  "show_whole x = show_int \<lfloor>x\<rfloor>"

definition float_decimal :: "string \<Rightarrow> rat option" where
  "float_decimal s = map_option of_int (decimal s)"

section \<open>solution.py: random operators, repair, crossover and mutation\<close>

text \<open>
  The operators of \<open>solution.py\<close> draw random numbers. The generator is a list of
  natural numbers, one for each call of \<open>random()\<close>, read from the front and continued
  with zeros; a statement for all lists covers every outcome of the generator. A
  computation takes the generator and either does not return (\<open>None\<close>: a loop of the
  source that may run forever is given a number of rounds, \<open>fuel\<close>, and does not return
  when they are used up), raises an exception, or returns a value and the rest of the
  generator. \<open>bnd\<close> runs one computation after another, \<open>lift\<close> takes in a function that
  may raise, \<open>fold_comp\<close> is a \<open>for\<close> loop.
  \<open>randint\<close>, \<open>choice\<close> and \<open>shuffle\<close> follow the \<open>random\<close> module of Python 2: an empty
  range raises \<open>ValueError\<close>, an empty sequence \<open>IndexError\<close>, and \<open>shuffle\<close> swaps
  position \<open>i\<close>, from the last down to 1, with a random position up to \<open>i\<close>.
  \<open>filter_err\<close> is a list comprehension whose condition may raise, \<open>nth_err\<close> and
  \<open>set_entry\<close> are \<open>xs[i]\<close> and \<open>matrix[row][column] = v\<close> with non-negative indices.
\<close>

type_synonym rng = "nat list"

type_synonym 'a comp = "rng \<Rightarrow> (error + 'a \<times> rng) option"

definition ret :: "'a \<Rightarrow> 'a comp" where
  "ret x = (\<lambda>r. Some (Inr (x, r)))"

definition raise :: "error \<Rightarrow> 'a comp" where
  "raise e = (\<lambda>r. Some (Inl e))"

definition no_return :: "'a comp" where
  "no_return = (\<lambda>r. None)"

definition bnd :: "'a comp \<Rightarrow> ('a \<Rightarrow> 'b comp) \<Rightarrow> 'b comp" where
  "bnd m f = (\<lambda>r. case m r of
                      None \<Rightarrow> None
                    | Some (Inl e) \<Rightarrow> Some (Inl e)
                    | Some (Inr (x, r')) \<Rightarrow> f x r')"

definition lift :: "error + 'a \<Rightarrow> 'a comp" where
  "lift v = (case v of Inl e \<Rightarrow> raise e | Inr x \<Rightarrow> ret x)"

definition draw :: "nat comp" where
  "draw = (\<lambda>r. case r of [] \<Rightarrow> Some (Inr (0, [])) | k # r' \<Rightarrow> Some (Inr (k, r')))"

definition randint :: "int \<Rightarrow> int \<Rightarrow> int comp" where
  "randint a b =
     (if b < a then raise ValueError
      else bnd draw (\<lambda>k. ret (a + int (k mod nat (b - a + 1)))))"

definition choice :: "'a list \<Rightarrow> 'a comp" where
  "choice seq =
     (if seq = [] then raise IndexError
      else bnd draw (\<lambda>k. ret (seq ! (k mod length seq))))"

fun shuffle_loop :: "nat list \<Rightarrow> 'a list \<Rightarrow> 'a list comp" where
  "shuffle_loop [] x = ret x"
| "shuffle_loop (i # rest) x =
     bnd draw (\<lambda>k. let j = k mod (i + 1) in shuffle_loop rest (x[i := x ! j, j := x ! i]))"

definition shuffle :: "'a list \<Rightarrow> 'a list comp" where
  "shuffle x = shuffle_loop (rev [1 ..< length x]) x"

fun fold_comp :: "('a \<Rightarrow> 's \<Rightarrow> 's comp) \<Rightarrow> 'a list \<Rightarrow> 's \<Rightarrow> 's comp" where
  "fold_comp f [] s = ret s"
| "fold_comp f (x # xs) s = bnd (f x s) (\<lambda>s'. fold_comp f xs s')"

fun filter_err :: "('a \<Rightarrow> error + bool) \<Rightarrow> 'a list \<Rightarrow> error + 'a list" where
  "filter_err p [] = Inr []"
| "filter_err p (x # xs) =
     (case p x of
        Inl e \<Rightarrow> Inl e
      | Inr b \<Rightarrow> (case filter_err p xs of
                    Inl e \<Rightarrow> Inl e
                  | Inr ys \<Rightarrow> Inr (if b then x # ys else ys)))"

definition nth_err :: "'a list \<Rightarrow> nat \<Rightarrow> error + 'a" where
  "nth_err xs i = (if i < length xs then Inr (xs ! i) else Inl IndexError)"

definition set_entry :: "'a list list \<Rightarrow> nat \<Rightarrow> nat \<Rightarrow> 'a \<Rightarrow> error + 'a list list" where
  "set_entry matrix row column v =
     (if row < length matrix \<and> column < length (matrix ! row)
      then Inr (matrix[row := (matrix ! row)[column := v]]) else Inl IndexError)"

text \<open>
  \<open>empty_solution\<close>, and \<open>limit_clients\<close>: \<open>limit_clients_product\<close> is the body of its
  loop over the products, \<open>limit_clients_while\<close> the \<open>while\<close> loop for one vehicle (with
  fuel) and \<open>limit_clients\<close> the loop over the vehicles with too many clients. The list
  \<open>clients_served\<close>, which the source updates in place, is passed along with the solution.
\<close>

definition empty_solution :: "env \<Rightarrow> string \<Rightarrow> solution" where
  "empty_solution e i_log =
     Solution e (replicate (vehicle_nr e) 0)
       (replicate (client_nr e) (replicate (vehicle_nr e) 0))
       (replicate (client_nr e) (replicate (product_nr e) 0)) i_log"

definition limit_clients_product ::
  "nat \<Rightarrow> nat \<Rightarrow> nat list \<Rightarrow> nat \<Rightarrow> nat list list \<times> nat list list
     \<Rightarrow> (nat list list \<times> nat list list) comp" where
  "limit_clients_product veh client_to_remove available product st =
     (case st of (pd, clients_served) \<Rightarrow>
        bnd (lift (entry pd client_to_remove product)) (\<lambda>cur.
          if cur = veh + 1 then
            bnd (choice available) (\<lambda>new_veh.
            bnd (lift (set_entry pd client_to_remove product (new_veh + 1))) (\<lambda>pd'.
            bnd (lift (nth_err clients_served new_veh)) (\<lambda>new_clients.
              if client_to_remove \<notin> set new_clients
              then ret (pd', clients_served[new_veh := new_clients @ [client_to_remove]])
              else ret (pd', clients_served))))
          else ret (pd, clients_served)))"

primrec limit_clients_while ::
  "nat \<Rightarrow> env \<Rightarrow> nat \<Rightarrow> nat \<Rightarrow> solution \<times> nat list list \<Rightarrow> (solution \<times> nat list list) comp" where
  "limit_clients_while 0 e max_nr veh st = no_return"
| "limit_clients_while (Suc fuel) e max_nr veh st =
     (case st of (s, clients_served) \<Rightarrow>
        bnd (lift (nth_err clients_served veh)) (\<lambda>veh_clients.
          if length veh_clients > max_nr then
            bnd (choice veh_clients) (\<lambda>client_to_remove.
            bnd (lift (filter_err
                   (\<lambda>ve. if ve \<noteq> veh
                         then (case nth_err clients_served ve of
                                 Inl err \<Rightarrow> Inl err
                               | Inr cl \<Rightarrow> Inr (length cl < max_nr \<or> client_to_remove \<in> set cl))
                         else Inr False)
                   [0 ..< vehicle_nr e])) (\<lambda>available.
            bnd (fold_comp (limit_clients_product veh client_to_remove available)
                   [0 ..< product_nr e] (product_delivery s, clients_served)) (\<lambda>st'.
              case st' of (pd', clients_served') \<Rightarrow>
                limit_clients_while fuel e max_nr veh
                  (s\<lparr> product_delivery := pd' \<rparr>,
                   clients_served'[veh := remove1 client_to_remove (clients_served' ! veh)]))))
          else ret (s, clients_served)))"

definition limit_clients ::
  "nat \<Rightarrow> env \<Rightarrow> solution \<times> nat list list \<Rightarrow> (solution \<times> nat list list) comp" where
  "limit_clients fuel e st =
     (case st of (s, clients_served) \<Rightarrow>
        bnd (lift (filter_err (\<lambda>ve. case nth_err clients_served ve of
                                      Inl err \<Rightarrow> Inl err
                                    | Inr cl \<Rightarrow> Inr (length cl > 12))
                    [0 ..< vehicle_nr e])) (\<lambda>too_many_clients.
          fold_comp (limit_clients_while fuel e 12) too_many_clients (s, clients_served)))"

text \<open>
  \<open>determine_overflow\<close>: the capacity each vehicle has left, negative when it is
  overloaded.
\<close>

definition determine_overflow_step ::
  "env \<Rightarrow> solution \<Rightarrow> nat \<times> nat \<Rightarrow> int list \<Rightarrow> error + int list" where
  "determine_overflow_step e s cp remaining_capacity =
     (case cp of (client, product) \<Rightarrow>
        (case entry (product_delivery s) client product of
           Inl err \<Rightarrow> Inl err
         | Inr veh \<Rightarrow>
             if veh \<noteq> 0 then
               (case nth_err remaining_capacity (veh - 1) of
                  Inl err \<Rightarrow> Inl err
                | Inr rc \<Rightarrow>
                    (case entry (demand e) client product of
                       Inl err \<Rightarrow> Inl err
                     | Inr d \<Rightarrow> Inr (remaining_capacity[veh - 1 := rc - d])))
             else Inr remaining_capacity))"

definition determine_overflow :: "env \<Rightarrow> solution \<Rightarrow> error + int list" where
  "determine_overflow e s = fold_err (determine_overflow_step e s) (cells e) (capacity e)"

text \<open>
  \<open>correct_overflow\<close>. The state of its loops is the solution, \<open>remaining_capacity\<close>,
  \<open>clients_served\<close> and the counter \<open>overflow\<close>. \<open>eligible_vehicle\<close> is the condition of the
  comprehension for \<open>vehicle_list\<close>; \<open>first_usable\<close> finds the first vehicle of the
  shuffled list that passes \<open>starting_points[k] > 0 or i >= 2\<close>, where the loop breaks;
  \<open>move_delivery\<close> is what is done for that vehicle. \<open>correct_overflow_product\<close>,
  \<open>correct_overflow_client\<close> and \<open>correct_overflow_pass\<close> are the bodies of the loops over
  products, clients and of the \<open>while\<close> loop, which is \<open>correct_overflow_while\<close> (with
  fuel). The call of \<open>Solution.generate_chaos()\<close> is the parameter \<open>regen\<close>;
  \<open>regenerated\<close> copies the fields of the new solution as the source does and
  \<open>refresh_clients_served\<close> recomputes \<open>clients_served\<close> before the return.
\<close>

type_synonym overflow_state = "solution \<times> int list \<times> nat list list \<times> int"

definition eligible_vehicle ::
  "env \<Rightarrow> int list \<Rightarrow> nat list list \<Rightarrow> nat \<Rightarrow> nat \<Rightarrow> nat \<Rightarrow> error + bool" where
  "eligible_vehicle e remaining_capacity clients_served client product ve =
     (case nth_err remaining_capacity ve of
        Inl err \<Rightarrow> Inl err
      | Inr rc \<Rightarrow>
          (case entry (demand e) client product of
             Inl err \<Rightarrow> Inl err
           | Inr d \<Rightarrow>
               if rc \<ge> d then
                 (case nth_err clients_served ve of
                    Inl err \<Rightarrow> Inl err
                  | Inr cl \<Rightarrow> Inr (length cl < 12 \<or> client \<in> set cl))
               else Inr False))"

fun first_usable :: "nat list \<Rightarrow> nat \<Rightarrow> nat list \<Rightarrow> error + nat option" where
  "first_usable starting_points_v i [] = Inr None"
| "first_usable starting_points_v i (k # rest) =
     (if k < length starting_points_v then
        (if starting_points_v ! k > 0 \<or> i \<ge> 2 then Inr (Some k)
         else first_usable starting_points_v i rest)
      else Inl IndexError)"

definition move_delivery ::
  "env \<Rightarrow> nat \<Rightarrow> nat \<Rightarrow> nat \<Rightarrow> nat \<Rightarrow> overflow_state \<Rightarrow> error + overflow_state" where
  "move_delivery e client product veh k st =
     (case st of (s, remaining_capacity, clients_served, overflow) \<Rightarrow>
        bind_err (set_entry (product_delivery s) client product (k + 1)) (\<lambda>pd'.
        bind_err (nth_err clients_served k) (\<lambda>k_clients.
          let cs1 = (if client \<notin> set k_clients
                     then clients_served[k := k_clients @ [client]] else clients_served) in
        bind_err (if veh \<notin> set (pd' ! client) then
                    bind_err (nth_err cs1 (veh - 1)) (\<lambda>old_clients.
                      if client \<in> set old_clients
                      then Inr (cs1[veh - 1 := remove1 client old_clients])
                      else Inl ValueError)
                  else Inr cs1) (\<lambda>cs2.
        bind_err (entry (demand e) client product) (\<lambda>d.
        bind_err (nth_err remaining_capacity (veh - 1)) (\<lambda>rc_old_veh.
          let rc1 = remaining_capacity[veh - 1 := rc_old_veh + d] in
        bind_err (nth_err rc1 k) (\<lambda>rc_k.
          let rc2 = rc1[k := rc_k - d] in
          Inr (s\<lparr> product_delivery := pd' \<rparr>, rc2, cs2,
               if rc2 ! (veh - 1) \<ge> 0 then overflow - 1 else overflow))))))))"

definition correct_overflow_product ::
  "env \<Rightarrow> nat \<Rightarrow> nat \<Rightarrow> nat \<Rightarrow> overflow_state \<Rightarrow> overflow_state comp" where
  "correct_overflow_product e i client product st =
     (case st of (s, remaining_capacity, clients_served, overflow) \<Rightarrow>
        bnd (lift (entry (product_delivery s) client product)) (\<lambda>veh.
          if veh \<noteq> 0 then
            bnd (lift (nth_err remaining_capacity (veh - 1))) (\<lambda>rc.
              if rc < 0 then
                bnd (lift (filter_err
                       (eligible_vehicle e remaining_capacity clients_served client product)
                       [0 ..< vehicle_nr e])) (\<lambda>vehicle_list.
                bnd (shuffle vehicle_list) (\<lambda>shuffled.
                bnd (lift (first_usable (starting_points s) i shuffled)) (\<lambda>found.
                  case found of
                    None \<Rightarrow> ret st
                  | Some k \<Rightarrow> lift (move_delivery e client product veh k st))))
              else ret st)
          else ret st))"

definition correct_overflow_client ::
  "env \<Rightarrow> nat \<Rightarrow> nat \<Rightarrow> overflow_state \<Rightarrow> overflow_state comp" where
  "correct_overflow_client e i client st =
     bnd (shuffle [0 ..< product_nr e]) (\<lambda>product_list.
       fold_comp (correct_overflow_product e i client) product_list st)"

definition correct_overflow_pass :: "env \<Rightarrow> nat \<Rightarrow> overflow_state \<Rightarrow> overflow_state comp" where
  "correct_overflow_pass e i st =
     bnd (shuffle [0 ..< client_nr e]) (\<lambda>client_list.
       fold_comp (correct_overflow_client e i) client_list st)"

definition regenerated :: "env \<Rightarrow> solution \<Rightarrow> solution \<Rightarrow> solution" where
  "regenerated e s sol =
     s\<lparr> starting_points := starting_points sol,
        client_order := client_order sol,
        product_delivery := product_delivery sol,
        l1_distance := 0,
        l2_clients := l2_clients sol,
        l2_distance := [],
        sat_demand := None,
        log_s := log_s s @ [''Regenerated''] \<rparr>"

definition refresh_clients_served ::
  "env \<Rightarrow> solution \<Rightarrow> nat list list \<Rightarrow> error + nat list list" where
  "refresh_clients_served e s clients_served =
     fold_err (\<lambda>veh cs.
        if veh < length cs then
          (case filter_err (\<lambda>client. case nth_err (product_delivery s) client of
                                         Inl err \<Rightarrow> Inl err
                                       | Inr row \<Rightarrow> Inr (veh + 1 \<in> set row))
                  [0 ..< client_nr e] of
             Inl err \<Rightarrow> Inl err
           | Inr served \<Rightarrow> Inr (cs[veh := served]))
        else Inl IndexError) [0 ..< vehicle_nr e] clients_served"

primrec correct_overflow_while ::
  "nat \<Rightarrow> solution comp \<Rightarrow> env \<Rightarrow> nat \<Rightarrow> overflow_state \<Rightarrow> (solution \<times> nat list list) comp" where
  "correct_overflow_while 0 regen e i st = no_return"
| "correct_overflow_while (Suc fuel) regen e i st =
     (case st of (s, remaining_capacity, clients_served, overflow) \<Rightarrow>
        if overflow > 0 then
          bnd (correct_overflow_pass e i st) (\<lambda>st'.
            case st' of (s', remaining_capacity', clients_served', overflow') \<Rightarrow>
              if i + 1 > 2 \<and> remaining_capacity' = remaining_capacity then
                bnd regen (\<lambda>sol.
                  let s'' = regenerated e s' sol in
                  bnd (lift (refresh_clients_served e s'' clients_served')) (\<lambda>cs''.
                    ret (s'', cs'')))
              else correct_overflow_while fuel regen e (i + 1) st')
        else ret (s, clients_served))"

definition correct_overflow ::
  "nat \<Rightarrow> solution comp \<Rightarrow> env \<Rightarrow> solution \<Rightarrow> int list \<Rightarrow> nat list list
     \<Rightarrow> (solution \<times> nat list list) comp" where
  "correct_overflow fuel regen e s remaining_capacity clients_served =
     correct_overflow_while fuel regen e 0
       (s, remaining_capacity, clients_served,
        int (length (filter (\<lambda>rc. rc < 0) remaining_capacity)))"

text \<open>
  \<open>order_client_visits\<close> with \<open>find_nearest_satellite\<close> and \<open>min_distance_tour\<close>. A
  variable that is returned without having been assigned (no satellite at all) raises
  \<open>UnboundLocalError\<close>. \<open>choose_route\<close> is the case distinction on the number of clients
  and \<open>order_client_visits_step\<close> the loop body for one vehicle, which leaves the vehicle
  alone when its clients are the recorded ones, not empty, and it has a starting point.
\<close>

fun nearest_loop ::
  "(nat \<Rightarrow> error + rat) \<Rightarrow> nat list \<Rightarrow> bound \<times> nat option \<Rightarrow> error + (bound \<times> nat option)" where
  "nearest_loop dist_to [] acc = Inr acc"
| "nearest_loop dist_to (sat_index # rest) acc =
     (case dist_to sat_index of
        Inl err \<Rightarrow> Inl err
      | Inr d \<Rightarrow>
          if bound_less (Fin d) (fst acc)
          then nearest_loop dist_to rest (Fin d, Some (sat_index + 1))
          else nearest_loop dist_to rest acc)"

definition find_nearest_satellite :: "env \<Rightarrow> nat list \<Rightarrow> error + nat" where
  "find_nearest_satellite e clients_served =
     (if length clients_served = 1 then
        (let client_index = clients_served ! 0 + satellite_nr e in
         case nearest_loop (\<lambda>sat_index. entry (second_echelon e) client_index sat_index)
                [0 ..< satellite_nr e] (Infinity, None) of
           Inl err \<Rightarrow> Inl err
         | Inr (min_dist, None) \<Rightarrow> Inl UnboundLocalError
         | Inr (min_dist, Some sat) \<Rightarrow> Inr sat)
      else if length clients_served < 2 then Inl IndexError
      else
        (let client_index_1 = clients_served ! 0 + satellite_nr e;
             client_index_2 = clients_served ! 1 + satellite_nr e in
         case nearest_loop
                (\<lambda>sat_index.
                   case entry (second_echelon e) client_index_1 sat_index of
                     Inl err \<Rightarrow> Inl err
                   | Inr d1 \<Rightarrow>
                       (case entry (second_echelon e) client_index_2 sat_index of
                          Inl err \<Rightarrow> Inl err
                        | Inr d2 \<Rightarrow> Inr (d1 + d2)))
                [0 ..< satellite_nr e] (Infinity, None) of
           Inl err \<Rightarrow> Inl err
         | Inr (min_dist, None) \<Rightarrow> Inl UnboundLocalError
         | Inr (min_dist, Some sat) \<Rightarrow> Inr sat))"

definition tour_order :: "nat list \<Rightarrow> nat list \<Rightarrow> error + nat list" where
  "tour_order clients_served tour =
     map_err (\<lambda>i. nth_err clients_served (i - 1)) (filter (\<lambda>i. i > 0) tour)"

fun best_satellite_loop ::
  "env \<Rightarrow> nat list \<Rightarrow> nat list \<Rightarrow> bound \<times> (nat list \<times> nat) option
     \<Rightarrow> error + (bound \<times> (nat list \<times> nat) option)" where
  "best_satellite_loop e client_indices [] acc = Inr acc"
| "best_satellite_loop e client_indices (sat_index # rest) acc =
     (case make_submatrix (second_echelon e) ([sat_index] @ client_indices) of
        Inl err \<Rightarrow> Inl err
      | Inr distance_matrix \<Rightarrow>
          (case tsp distance_matrix of
             Inl err \<Rightarrow> Inl err
           | Inr (tour, cost) \<Rightarrow>
               if bound_less cost (fst acc)
               then best_satellite_loop e client_indices rest (cost, Some (tour, sat_index + 1))
               else best_satellite_loop e client_indices rest acc))"

definition min_distance_tour :: "env \<Rightarrow> nat \<Rightarrow> nat list \<Rightarrow> error + (nat \<times> nat list)" where
  "min_distance_tour e starting_point clients_served =
     (let client_indices = map (\<lambda>client. client + satellite_nr e) clients_served in
      if starting_point > 0 then
        (case make_submatrix (second_echelon e) ([starting_point - 1] @ client_indices) of
           Inl err \<Rightarrow> Inl err
         | Inr distance_matrix \<Rightarrow>
             (case tsp distance_matrix of
                Inl err \<Rightarrow> Inl err
              | Inr (tour, cost) \<Rightarrow>
                  (case tour_order clients_served tour of
                     Inl err \<Rightarrow> Inl err
                   | Inr order \<Rightarrow> Inr (starting_point, order))))
      else
        (case best_satellite_loop e client_indices [0 ..< satellite_nr e] (Infinity, None) of
           Inl err \<Rightarrow> Inl err
         | Inr (min_cost, None) \<Rightarrow> Inl UnboundLocalError
         | Inr (min_cost, Some (min_tour, sat)) \<Rightarrow>
             (case tour_order clients_served min_tour of
                Inl err \<Rightarrow> Inl err
              | Inr order \<Rightarrow> Inr (sat, order))))"

definition zero_client_order :: "env \<Rightarrow> nat \<Rightarrow> nat list list \<Rightarrow> error + nat list list" where
  "zero_client_order e veh co =
     fold_err (\<lambda>client co'. set_entry co' client veh 0) [0 ..< client_nr e] co"

fun number_clients :: "nat \<Rightarrow> nat \<Rightarrow> nat list \<Rightarrow> nat list list \<Rightarrow> error + nat list list" where
  "number_clients veh cnt [] co = Inr co"
| "number_clients veh cnt (client # rest) co =
     (case set_entry co client veh cnt of
        Inl err \<Rightarrow> Inl err
      | Inr co' \<Rightarrow> number_clients veh (cnt + 1) rest co')"

definition choose_route :: "env \<Rightarrow> solution \<Rightarrow> nat \<Rightarrow> nat list \<Rightarrow> error + (nat \<times> nat list)" where
  "choose_route e s veh veh_clients =
     (let nr_clients_served = length veh_clients in
      if nr_clients_served = 0 then Inr (0, [])
      else if nr_clients_served \<le> 2 then
        (case nth_err (starting_points s) veh of
           Inl err \<Rightarrow> Inl err
         | Inr sp \<Rightarrow>
             if sp = 0 then
               (case find_nearest_satellite e veh_clients of
                  Inl err \<Rightarrow> Inl err
                | Inr sat \<Rightarrow> Inr (sat, sort veh_clients))
             else Inr (sp, sort veh_clients))
      else
        (case nth_err (starting_points s) veh of
           Inl err \<Rightarrow> Inl err
         | Inr sp \<Rightarrow> min_distance_tour e sp veh_clients))"

definition order_client_visits_step ::
  "env \<Rightarrow> nat \<times> nat list \<Rightarrow> solution \<Rightarrow> error + solution" where
  "order_client_visits_step e vc s =
     (case vc of (veh, veh_clients) \<Rightarrow>
        (case nth_err (l2_clients s) veh of
           Inl err \<Rightarrow> Inl err
         | Inr recorded \<Rightarrow>
             (case (if veh_clients = recorded \<and> length veh_clients > 0
                    then (case nth_err (starting_points s) veh of
                            Inl err \<Rightarrow> Inl err
                          | Inr sp \<Rightarrow> Inr (sp > 0))
                    else Inr False) of
                Inl err \<Rightarrow> Inl err
              | Inr True \<Rightarrow> Inr s
              | Inr False \<Rightarrow>
                  (case zero_client_order e veh (client_order s) of
                     Inl err \<Rightarrow> Inl err
                   | Inr co0 \<Rightarrow>
                       (case choose_route e s veh veh_clients of
                          Inl err \<Rightarrow> Inl err
                        | Inr (sat, order) \<Rightarrow>
                            if veh < length (starting_points s) then
                              (case number_clients veh 1 order co0 of
                                 Inl err \<Rightarrow> Inl err
                               | Inr co1 \<Rightarrow>
                                   Inr (s\<lparr> starting_points := (starting_points s)[veh := sat],
                                          client_order := co1 \<rparr>))
                            else Inl IndexError)))))"

definition order_client_visits :: "env \<Rightarrow> solution \<Rightarrow> nat list list \<Rightarrow> error + solution" where
  "order_client_visits e s clients_served =
     fold_err (order_client_visits_step e) (zip [0 ..< length clients_served] clients_served) s"

text \<open>
  \<open>correct\<close> and \<open>generate_chaos\<close> call each other: \<open>correct_with regen\<close> is \<open>correct\<close>
  with the generation of a new solution given, \<open>generate_chaos_body again\<close> is
  \<open>generate_chaos\<close> with its own recursive call given, and the two are tied together by
  recursion on the fuel. In \<open>chaos_delivery\<close> the state \<open>None\<close> stands for the early
  \<open>return cls.generate_chaos()\<close>.
\<close>

definition correct_with ::
  "solution comp \<Rightarrow> nat \<Rightarrow> env \<Rightarrow> solution \<Rightarrow> solution comp" where
  "correct_with regen fuel e s =
     bnd (lift (compute_clients_served e s)) (\<lambda>clients_served.
     bnd (limit_clients fuel e (s, clients_served)) (\<lambda>st1.
       case st1 of (s1, cs1) \<Rightarrow>
     bnd (lift (determine_overflow e s1)) (\<lambda>remaining_capacity.
     bnd (correct_overflow fuel regen e s1 remaining_capacity cs1) (\<lambda>st2.
       case st2 of (s2, cs2) \<Rightarrow>
         lift (order_client_visits e s2 cs2)))))"

definition chaos_starting_point ::
  "env \<Rightarrow> nat \<Rightarrow> nat list \<times> nat list \<Rightarrow> (nat list \<times> nat list) comp" where
  "chaos_starting_point e veh st =
     (case st of (sp, available) \<Rightarrow>
        bnd (randint 0 (max 4 (int (vehicle_nr e)))) (\<lambda>prob.
          if prob > 0 then
            bnd (randint 1 (int (satellite_nr e))) (\<lambda>sat.
              ret (sp[veh := nat sat], available @ [veh]))
          else ret (sp[veh := 0], available)))"

type_synonym chaos_state = "nat list \<times> nat list list \<times> nat list list \<times> nat list"

definition chaos_delivery ::
  "env \<Rightarrow> nat \<times> nat \<Rightarrow> chaos_state option \<Rightarrow> chaos_state option comp" where
  "chaos_delivery e cp st_opt =
     (case st_opt of
        None \<Rightarrow> ret None
      | Some (sp, pd, clients_served, available) \<Rightarrow>
          (case cp of (client, product) \<Rightarrow>
             bnd (lift (entry (demand e) client product)) (\<lambda>d.
               if d > 0 then
                 bnd (if available = [] \<and> 0 \<in> set sp \<and> sum_list sp > 0 then
                        bnd (choice (filter (\<lambda>ve. sp ! ve = 0) [0 ..< vehicle_nr e])) (\<lambda>next_vehicle.
                        bnd (randint 1 (int (satellite_nr e))) (\<lambda>sat.
                          ret (Some (sp[next_vehicle := nat sat], available @ [next_vehicle]))))
                      else if available = [] then ret None
                      else ret (Some (sp, available))) (\<lambda>ready.
                   case ready of
                     None \<Rightarrow> ret None
                   | Some (sp', available') \<Rightarrow>
                       bnd (choice available') (\<lambda>veh.
                       bnd (lift (set_entry pd client product (veh + 1))) (\<lambda>pd'.
                       bnd (lift (nth_err clients_served veh)) (\<lambda>veh_clients.
                         let cs' = (if client \<notin> set veh_clients
                                    then clients_served[veh := veh_clients @ [client]]
                                    else clients_served) in
                         ret (Some (sp', pd', cs',
                                    if length (cs' ! veh) = 12 then remove1 veh available'
                                    else available'))))))
               else ret st_opt)))"

definition generate_chaos_body :: "solution comp \<Rightarrow> nat \<Rightarrow> env \<Rightarrow> solution comp" where
  "generate_chaos_body again fuel e =
     (let sol = empty_solution e ''Chaos'' in
      bnd (fold_comp (chaos_starting_point e) [0 ..< vehicle_nr e] (starting_points sol, []))
        (\<lambda>st. case st of (sp, available0) \<Rightarrow>
           let available = (if available0 = [] then [0 ..< vehicle_nr e] else available0) in
           bnd (fold_comp (chaos_delivery e) (cells e)
                  (Some (sp, product_delivery sol, replicate (vehicle_nr e) [], available)))
             (\<lambda>finished. case finished of
                None \<Rightarrow> again
              | Some (sp', pd', clients_served, available') \<Rightarrow>
                  correct_with again fuel e
                    (sol\<lparr> starting_points := sp', product_delivery := pd' \<rparr>))))"

primrec generate_chaos :: "nat \<Rightarrow> env \<Rightarrow> solution comp" where
  "generate_chaos 0 e = no_return"
| "generate_chaos (Suc fuel) e = generate_chaos_body (generate_chaos fuel e) fuel e"

definition correct :: "nat \<Rightarrow> env \<Rightarrow> solution \<Rightarrow> solution comp" where
  "correct fuel e s = correct_with (generate_chaos fuel e) fuel e s"

text \<open>
  \<open>crossover\<close> and \<open>cx_wrapper\<close>. The children are deep copies, so only the product
  delivery rows are exchanged; \<open>cx_wrapper\<close> returns the two parents as it leaves them.
\<close>

definition crossover_client ::
  "solution \<Rightarrow> solution \<Rightarrow> nat \<Rightarrow> nat list list \<times> nat list list
     \<Rightarrow> (nat list list \<times> nat list list) comp" where
  "crossover_client parent_1 parent_2 client st =
     (case st of (pd_1, pd_2) \<Rightarrow>
        bnd (randint 1 2) (\<lambda>coin.
          if coin = 2 then
            bnd (lift (nth_err (product_delivery parent_2) client)) (\<lambda>row_2.
              if client < length pd_1 then
                bnd (lift (nth_err (product_delivery parent_1) client)) (\<lambda>row_1.
                  if client < length pd_2
                  then ret (pd_1[client := row_2], pd_2[client := row_1])
                  else raise IndexError)
              else raise IndexError)
          else ret (pd_1, pd_2)))"

definition crossover :: "env \<Rightarrow> solution \<Rightarrow> solution \<Rightarrow> (solution \<times> solution) comp" where
  "crossover e parent_1 parent_2 =
     bnd (fold_comp (crossover_client parent_1 parent_2) [0 ..< client_nr e]
            (product_delivery parent_1, product_delivery parent_2)) (\<lambda>st.
       case st of (pd_1, pd_2) \<Rightarrow>
         ret (parent_1\<lparr> product_delivery := pd_1 \<rparr>, parent_2\<lparr> product_delivery := pd_2 \<rparr>))"

definition cx_wrapper ::
  "nat \<Rightarrow> env \<Rightarrow> solution \<Rightarrow> solution \<Rightarrow> (solution \<times> solution) comp" where
  "cx_wrapper fuel e parent_1 parent_2 =
     bnd (crossover e parent_1 parent_2) (\<lambda>children.
       case children of (child_1, child_2) \<Rightarrow>
         bnd (correct fuel e (parent_1\<lparr> product_delivery := product_delivery child_1 \<rparr>)) (\<lambda>p1.
         bnd (correct fuel e (parent_2\<lparr> product_delivery := product_delivery child_2 \<rparr>)) (\<lambda>p2.
           ret (p1\<lparr> log_s := log_s p1 @ [''Crossover''] \<rparr>,
                p2\<lparr> log_s := log_s p2 @ [''Crossover''] \<rparr>))))"

text \<open>
  The five mutation operators, \<open>mutation_wrapper\<close> and \<open>mutation\<close>. The loop of
  \<open>mut_swap_clients\<close> that draws a vehicle until one serves a client has fuel
  (\<open>pick_serving_vehicle\<close>). \<open>mutation_while\<close> is the loop \<open>while self == original\<close>: it
  returns the index and the solution it ends with, or \<open>None\<close> when it would read
  \<open>muts[i]\<close> past the end of the list, which \<open>mutation\<close> turns into \<open>IndexError\<close>.
\<close>

definition swap_delivery :: "nat \<Rightarrow> nat \<Rightarrow> nat \<Rightarrow> nat" where
  "swap_delivery a b v = (if v = a + 1 then b + 1 else if v = b + 1 then a + 1 else v)"

definition mut_switch_trucks :: "env \<Rightarrow> solution \<Rightarrow> solution comp" where
  "mut_switch_trucks e s =
     (let veh_choices = [0 ..< vehicle_nr e] in
      bnd (choice veh_choices) (\<lambda>a.
      bnd (choice (remove1 a veh_choices)) (\<lambda>b.
      bnd (lift (nth_err (starting_points s) b)) (\<lambda>sp_b.
      bnd (lift (nth_err (starting_points s) a)) (\<lambda>sp_a.
      bnd (lift (fold_err (\<lambda>cp pd.
                   case cp of (client, product) \<Rightarrow>
                     (case entry pd client product of
                        Inl err \<Rightarrow> Inl err
                      | Inr v \<Rightarrow> set_entry pd client product (swap_delivery a b v)))
                 (cells e) (product_delivery s))) (\<lambda>pd'.
        if a < length (l2_clients s) \<and> b < length (l2_clients s)
        then ret (s\<lparr> starting_points := (starting_points s)[a := sp_b, b := sp_a],
                    product_delivery := pd',
                    l2_clients := (l2_clients s)[a := [], b := []],
                    log_s := log_s s @ [''Switch trucks''] \<rparr>)
        else raise IndexError))))))"

definition mut_switch_satellites :: "env \<Rightarrow> solution \<Rightarrow> solution comp" where
  "mut_switch_satellites e s =
     bnd (lift (filter_err (\<lambda>i. case nth_err (starting_points s) i of
                                  Inl err \<Rightarrow> Inl err
                                | Inr sp \<Rightarrow> Inr (sp > 0)) [0 ..< vehicle_nr e])) (\<lambda>veh_choices.
     bnd (choice veh_choices) (\<lambda>a.
     bnd (choice (remove1 a veh_choices)) (\<lambda>b.
     bnd (if starting_points s ! a = starting_points s ! b then
            bnd (randint 1 (int (satellite_nr e))) (\<lambda>sat_a.
            bnd (randint 1 (int (satellite_nr e))) (\<lambda>sat_b.
              ret ((starting_points s)[a := nat sat_a, b := nat sat_b])))
          else ret ((starting_points s)[a := starting_points s ! b, b := starting_points s ! a]))
       (\<lambda>sp'.
         if a < length (l2_clients s) \<and> b < length (l2_clients s)
         then ret (s\<lparr> starting_points := sp',
                     l2_clients := (l2_clients s)[a := [], b := []],
                     log_s := log_s s @ [''Switch satellites''] \<rparr>)
         else raise IndexError))))"

definition mut_switch_products :: "env \<Rightarrow> solution \<Rightarrow> solution comp" where
  "mut_switch_products e s =
     bnd (lift (filter_err (\<lambda>cp. case cp of (c, p) \<Rightarrow>
                              (case entry (demand e) c p of
                                 Inl err \<Rightarrow> Inl err
                               | Inr d \<Rightarrow> Inr (d > 0))) (cells e))) (\<lambda>cp_choices.
     bnd (choice cp_choices) (\<lambda>cp.
       case cp of (client, product) \<Rightarrow>
         bnd (lift (if vehicle_nr e = 0 then Inr []
                    else (case entry (product_delivery s) client product of
                            Inl err \<Rightarrow> Inl err
                          | Inr cur \<Rightarrow>
                              Inr (map (\<lambda>ve. ve + 1)
                                     (filter (\<lambda>ve. ve + 1 \<noteq> cur) [0 ..< vehicle_nr e]))))) (\<lambda>veh_choices.
         bnd (choice veh_choices) (\<lambda>veh.
         bnd (lift (set_entry (product_delivery s) client product veh)) (\<lambda>pd'.
           ret (s\<lparr> product_delivery := pd',
                  log_s := log_s s @ [''Switch products''] \<rparr>))))))"

definition serving_clients :: "env \<Rightarrow> solution \<Rightarrow> nat \<Rightarrow> error + nat list" where
  "serving_clients e s a =
     filter_err (\<lambda>cl. case nth_err (product_delivery s) cl of
                        Inl err \<Rightarrow> Inl err
                      | Inr row \<Rightarrow> Inr (a \<in> set row)) [0 ..< client_nr e]"

primrec pick_serving_vehicle :: "nat \<Rightarrow> env \<Rightarrow> solution \<Rightarrow> (nat \<times> nat list) comp" where
  "pick_serving_vehicle 0 e s = no_return"
| "pick_serving_vehicle (Suc fuel) e s =
     bnd (randint 1 (int (vehicle_nr e))) (\<lambda>a.
     bnd (lift (serving_clients e s (nat a))) (\<lambda>client_choices.
       if length client_choices = 0 then pick_serving_vehicle fuel e s
       else ret (nat a, client_choices)))"

definition swap_clients_product ::
  "nat \<Rightarrow> nat \<Rightarrow> nat \<Rightarrow> nat \<Rightarrow> nat \<Rightarrow> nat list list \<Rightarrow> error + nat list list" where
  "swap_clients_product a b client_1 client_2 product pd =
     (case entry pd client_1 product of
        Inl err \<Rightarrow> Inl err
      | Inr v1 \<Rightarrow>
          (case (if v1 = a then set_entry pd client_1 product b else Inr pd) of
             Inl err \<Rightarrow> Inl err
           | Inr pd1 \<Rightarrow>
               (case entry pd1 client_2 product of
                  Inl err \<Rightarrow> Inl err
                | Inr v2 \<Rightarrow> if v2 = b then set_entry pd1 client_2 product a else Inr pd1)))"

definition mut_swap_clients :: "nat \<Rightarrow> env \<Rightarrow> solution \<Rightarrow> solution comp" where
  "mut_swap_clients fuel e s =
     bnd (pick_serving_vehicle fuel e s) (\<lambda>picked.
       case picked of (a, client_choices) \<Rightarrow>
         bnd (choice (remove1 a [1 ..< vehicle_nr e + 1])) (\<lambda>b.
         bnd (choice client_choices) (\<lambda>client_1.
         bnd (randint 0 (int (client_nr e) - 1)) (\<lambda>client_2.
         bnd (lift (fold_err (swap_clients_product a b client_1 (nat client_2))
                      [0 ..< product_nr e] (product_delivery s))) (\<lambda>pd'.
           ret (s\<lparr> product_delivery := pd',
                  log_s := log_s s @ [''Swap clients''] \<rparr>))))))"

definition mut_centralize_client :: "env \<Rightarrow> solution \<Rightarrow> solution comp" where
  "mut_centralize_client e s =
     bnd (randint 0 (int (client_nr e) - 1)) (\<lambda>client.
     bnd (randint 1 (int (vehicle_nr e))) (\<lambda>veh.
     bnd (lift (fold_err (\<lambda>product pd.
                  case entry (demand e) (nat client) product of
                    Inl err \<Rightarrow> Inl err
                  | Inr d \<Rightarrow> if d > 0 then set_entry pd (nat client) product (nat veh) else Inr pd)
                [0 ..< product_nr e] (product_delivery s))) (\<lambda>pd'.
       ret (s\<lparr> product_delivery := pd',
              log_s := log_s s @ [''Centralize client''] \<rparr>))))"

definition mutation_wrapper :: "nat \<Rightarrow> env \<Rightarrow> nat \<Rightarrow> solution \<Rightarrow> solution comp" where
  "mutation_wrapper fuel e mut_nr s =
     (if mut_nr = 1 then mut_switch_trucks e s
      else if mut_nr = 2 then mut_switch_satellites e s
      else if mut_nr = 3 then mut_switch_products e s
      else if mut_nr = 4 then mut_swap_clients fuel e s
      else if mut_nr = 5 then mut_centralize_client e s
      else raise ValueError)"

function mutation_while ::
  "nat \<Rightarrow> env \<Rightarrow> solution \<Rightarrow> nat list \<Rightarrow> nat \<Rightarrow> solution \<Rightarrow> (nat \<times> solution) option comp" where
  "mutation_while fuel e original muts i s =
     (if solution_eq s original then
        (if i < length muts
         then bnd (mutation_wrapper fuel e (muts ! i) s) (\<lambda>s'.
                mutation_while fuel e original muts (i + 1) s')
         else ret None)
      else ret (Some (i, s)))"
  by pat_completeness auto
termination
  by (relation "measure (\<lambda>(fuel, e, original, muts, i, s). length muts - i)") auto

declare mutation_while.simps [simp del]

definition mutation_rest ::
  "nat \<Rightarrow> env \<Rightarrow> nat list \<Rightarrow> nat \<Rightarrow> solution \<Rightarrow> solution comp" where
  "mutation_rest fuel e muts j s =
     bnd (randint 1 2) (\<lambda>k.
       if k = 1 then
         bnd (lift (nth_err muts j)) (\<lambda>mut_nr. mutation_wrapper fuel e mut_nr s)
       else ret s)"

definition mutation :: "nat \<Rightarrow> env \<Rightarrow> solution \<Rightarrow> solution comp" where
  "mutation fuel e s =
     bnd (shuffle [1, 2, 3, 4, 5]) (\<lambda>muts.
     bnd (lift (nth_err muts 0)) (\<lambda>first_mut.
     bnd (mutation_wrapper fuel e first_mut s) (\<lambda>s1.
     bnd (mutation_while fuel e s muts 1 s1) (\<lambda>reached.
       case reached of
         None \<Rightarrow> raise IndexError
       | Some (i, s2) \<Rightarrow>
           bnd (fold_comp (mutation_rest fuel e muts) [i ..< 5] s2) (\<lambda>s3.
             correct fuel e s3)))))"

definition mut_with_correction :: "nat \<Rightarrow> env \<Rightarrow> nat \<Rightarrow> solution \<Rightarrow> solution comp" where
  "mut_with_correction fuel e mut_nr s =
     bnd (mutation_wrapper fuel e mut_nr s) (\<lambda>s'. correct fuel e s')"

text \<open>
  \<open>switch_products_applicable\<close>: at least two vehicles, some client-product pair of
  positive demand, and demand and product-delivery matrices with a row for every client and
  an entry for every product.
\<close>

definition switch_products_applicable :: "env \<Rightarrow> solution \<Rightarrow> bool" where
  "switch_products_applicable e s \<longleftrightarrow>
     2 \<le> vehicle_nr e
     \<and> list_ex (\<lambda>cp. case cp of (c, p) \<Rightarrow> demand e ! c ! p > 0) (cells e)
     \<and> client_nr e \<le> length (demand e)
     \<and> list_all (\<lambda>row. product_nr e \<le> length row) (take (client_nr e) (demand e))
     \<and> client_nr e \<le> length (product_delivery s)
     \<and> list_all (\<lambda>row. product_nr e \<le> length row) (take (client_nr e) (product_delivery s))"

text \<open>
  A solution on \<open>instance_a\<close> whose two vehicles start at the same satellite.
\<close>

definition solution_d :: solution where
  "solution_d = Solution instance_a [1, 1] [[1, 0], [2, 1]] [[1, 0], [1, 2]] ''Order''"

section \<open>Properties of dominance\<close>

lemma dominates_loop_iff:
  "dominates_loop ps ne \<longleftrightarrow>
     (\<forall>p \<in> set ps. fst p \<le> snd p) \<and> (ne \<or> (\<exists>p \<in> set ps. fst p < snd p))"
  by (induction ps ne rule: dominates_loop.induct) auto

lemma dominates_iff:
  assumes "length a = length b"
  shows "dominates a b \<longleftrightarrow>
           (\<forall>i < length a. a ! i \<le> b ! i) \<and> (\<exists>i < length a. a ! i < b ! i)"
proof -
  have "set (zip a b) = {(a ! i, b ! i) | i. i < length a}"
    using assms by (auto simp: set_zip)
  then show ?thesis
    unfolding dominates_def dominates_loop_iff by auto
qed

text \<open>
  Claim C7. On fitness 4-tuples, \<open>dominates A B\<close> holds exactly when no component of \<open>A\<close>
  exceeds the matching component of \<open>B\<close> and some component of \<open>A\<close> is strictly smaller;
  hence \<open>dominates A B\<close> excludes \<open>dominates B A\<close>, and \<open>dominates\<close> is transitive.
\<close>

theorem dominates_strict_partial_order:
  fixes A B C :: "'a::linorder list"
  assumes "length A = 4" and "length B = 4" and "length C = 4"
  shows "(dominates A B \<longleftrightarrow>
            (\<forall>i < 4. \<not> A ! i > B ! i) \<and> (\<exists>i < 4. A ! i < B ! i))
         \<and> (dominates A B \<longrightarrow> \<not> dominates B A)
         \<and> (dominates A B \<and> dominates B C \<longrightarrow> dominates A C)"
proof -
  have ab: "dominates A B \<longleftrightarrow> (\<forall>i < 4. A ! i \<le> B ! i) \<and> (\<exists>i < 4. A ! i < B ! i)"
    using dominates_iff [of A B] assms by simp
  have ba: "dominates B A \<longleftrightarrow> (\<forall>i < 4. B ! i \<le> A ! i) \<and> (\<exists>i < 4. B ! i < A ! i)"
    using dominates_iff [of B A] assms by simp
  have bc: "dominates B C \<longleftrightarrow> (\<forall>i < 4. B ! i \<le> C ! i) \<and> (\<exists>i < 4. B ! i < C ! i)"
    using dominates_iff [of B C] assms by simp
  have ac: "dominates A C \<longleftrightarrow> (\<forall>i < 4. A ! i \<le> C ! i) \<and> (\<exists>i < 4. A ! i < C ! i)"
    using dominates_iff [of A C] assms by simp
  have one: "dominates A B \<longleftrightarrow> (\<forall>i < 4. \<not> A ! i > B ! i) \<and> (\<exists>i < 4. A ! i < B ! i)"
    unfolding ab by (simp add: not_less)
  have two: "dominates A B \<longrightarrow> \<not> dominates B A"
    unfolding ab ba by (meson leD)
  have three: "dominates A B \<and> dominates B C \<longrightarrow> dominates A C"
  proof
    assume h: "dominates A B \<and> dominates B C"
    then have le: "\<forall>i < 4. A ! i \<le> C ! i"
      unfolding ab bc by (meson order_trans)
    from h obtain i where "i < 4" "A ! i < B ! i" unfolding ab by blast
    moreover from h have "B ! i \<le> C ! i" using \<open>i < 4\<close> unfolding bc by blast
    ultimately have "\<exists>i < 4. A ! i < C ! i" by (meson less_le_trans)
    with le show "dominates A C" unfolding ac by blast
  qed
  from one two three show ?thesis by blast
qed

theorem dominates_strict_partial_order_witness:
  "dominates [1, 1, 1, 1 :: int] [2, 2, 2, 2] \<and> \<not> dominates [2, 2, 2, 2 :: int] [1, 1, 1, 1]
   \<and> dominates [2, 2, 2, 2 :: int] [2, 3, 2, 2] \<and> dominates [1, 1, 1, 1 :: int] [2, 3, 2, 2]
   \<and> \<not> dominates [1, 2, 1, 1 :: int] [2, 1, 1, 1] \<and> \<not> dominates [2, 1, 1, 1 :: int] [1, 2, 1, 1]"
proof -
  have d1: "dominates [1, 1, 1, 1 :: int] [2, 2, 2, 2]" by (simp add: dominates_def)
  have d2: "dominates [2, 2, 2, 2 :: int] [2, 3, 2, 2]" by (simp add: dominates_def)
  have n: "\<not> dominates [1, 2, 1, 1 :: int] [2, 1, 1, 1]" "\<not> dominates [2, 1, 1, 1 :: int] [1, 2, 1, 1]"
    by (simp_all add: dominates_def)
  from dominates_strict_partial_order [of "[1, 1, 1, 1 :: int]" "[2, 2, 2, 2]" "[2, 3, 2, 2]"] d1 d2 n
  show ?thesis by simp
qed

section \<open>The mixed-radix counter\<close>

lemma reset_right_upt:
  "b \<le> length mn \<Longrightarrow> b \<le> length cur \<Longrightarrow> a \<le> b \<Longrightarrow>
   reset_right cur mn [a ..< b] = Inr (take a cur @ drop a (take b mn) @ drop b cur)"
proof (induction "b - a" arbitrary: a cur)
  case 0
  then show ?case by simp
next
  case (Suc n)
  then have ab: "a < b" by simp
  have step: "reset_right (cur[a := mn ! a]) mn [Suc a ..< b]
              = Inr (take (Suc a) (cur[a := mn ! a]) @ drop (Suc a) (take b mn) @ drop b (cur[a := mn ! a]))"
    using Suc.hyps(1) [of "Suc a" "cur[a := mn ! a]"] Suc.hyps(2) Suc.prems by simp
  have t: "take (Suc a) (cur[a := mn ! a]) = take a cur @ [mn ! a]"
    using ab Suc.prems by (simp add: take_Suc_conv_app_nth)
  have d: "drop a (take b mn) = mn ! a # drop (Suc a) (take b mn)"
    using ab Suc.prems by (metis Cons_nth_drop_Suc length_take min.absorb2 nth_take)
  have e: "drop b (cur[a := mn ! a]) = drop b cur"
    using ab by simp
  show ?case
    using ab Suc.prems step t d e by (simp add: upt_rec [of a b])
qed

lemma next_combo_scan_exhausted:
  "k \<le> length mx \<Longrightarrow> length mn = length cur \<Longrightarrow> k \<le> length cur \<Longrightarrow>
   next_combo_scan k cur mx mn = Inl NoMoreCombosError \<longleftrightarrow> (\<forall>i < k. \<not> cur ! i < mx ! i)"
proof (induction k)
  case 0
  then show ?case by simp
next
  case (Suc k)
  show ?case
  proof (cases "cur ! k < mx ! k")
    case True
    have "reset_right (cur[k := cur ! k + 1]) mn [k + 1 ..< length cur]
          = Inr (take (k + 1) (cur[k := cur ! k + 1]) @ drop (k + 1) (take (length cur) mn) @ drop (length cur) (cur[k := cur ! k + 1]))"
      using reset_right_upt [of "length cur" mn "cur[k := cur ! k + 1]" "k + 1"] Suc.prems by simp
    with True Suc.prems show ?thesis by auto
  next
    case False
    with Suc show ?thesis by (auto simp: less_Suc_eq)
  qed
qed

lemma next_combo_scan_step:
  "k \<le> length mx \<Longrightarrow> length mn = length cur \<Longrightarrow> k \<le> length cur \<Longrightarrow> p < k \<Longrightarrow>
   cur ! p < mx ! p \<Longrightarrow> (\<forall>j. p < j \<and> j < k \<longrightarrow> \<not> cur ! j < mx ! j) \<Longrightarrow>
   next_combo_scan k cur mx mn = Inr (take p cur @ [cur ! p + 1] @ drop (Suc p) mn)"
proof (induction k)
  case 0
  then show ?case by simp
next
  case (Suc k)
  show ?case
  proof (cases "p = k")
    case True
    have "reset_right (cur[k := cur ! k + 1]) mn [k + 1 ..< length cur]
          = Inr (take (k + 1) (cur[k := cur ! k + 1]) @ drop (k + 1) (take (length cur) mn) @ drop (length cur) (cur[k := cur ! k + 1]))"
      using reset_right_upt [of "length cur" mn "cur[k := cur ! k + 1]" "k + 1"] Suc.prems by simp
    moreover have "take (k + 1) (cur[k := cur ! k + 1]) = take k cur @ [cur ! k + 1]"
      using Suc.prems by (simp add: take_Suc_conv_app_nth)
    ultimately show ?thesis using True Suc.prems by simp
  next
    case False
    then have pk: "p < k" using Suc.prems by simp
    then have "\<not> cur ! k < mx ! k" using Suc.prems by simp
    moreover have "next_combo_scan k cur mx mn = Inr (take p cur @ [cur ! p + 1] @ drop (Suc p) mn)"
      using Suc.IH Suc.prems pk by simp
    ultimately show ?thesis using Suc.prems by simp
  qed
qed

text \<open>
  Claim C8. For a position vector within its bounds, \<open>next_combo\<close> raises
  \<open>NoMoreCombosError\<close> exactly when every position is at its maximum; otherwise it
  increments the rightmost position below its maximum and sets every position to its right
  to that position's minimum. With \<open>min = [0,0]\<close> and \<open>max = [1,2]\<close> the calls from
  \<open>[0,0]\<close> give \<open>[0,1]\<close>, \<open>[0,2]\<close>, \<open>[1,0]\<close>, \<open>[1,1]\<close>, \<open>[1,2]\<close> and then the
  exhaustion signal.
\<close>

theorem next_combo_counter:
  "(length mx = length cur \<and> length mn = length cur
      \<and> (\<forall>i < length cur. mn ! i \<le> cur ! i \<and> cur ! i \<le> mx ! i) \<longrightarrow>
      (next_combo cur mx mn = Inl NoMoreCombosError \<longleftrightarrow> (\<forall>i < length cur. cur ! i = mx ! i))
      \<and> (\<forall>p < length cur. cur ! p < mx ! p \<and> (\<forall>j. p < j \<and> j < length cur \<longrightarrow> cur ! j = mx ! j)
            \<longrightarrow> next_combo cur mx mn = Inr (take p cur @ [cur ! p + 1] @ drop (Suc p) mn)))
   \<and> next_combo [0, 0] [1, 2] [0, 0] = Inr [0, 1]
   \<and> next_combo [0, 1] [1, 2] [0, 0] = Inr [0, 2]
   \<and> next_combo [0, 2] [1, 2] [0, 0] = Inr [1, 0]
   \<and> next_combo [1, 0] [1, 2] [0, 0] = Inr [1, 1]
   \<and> next_combo [1, 1] [1, 2] [0, 0] = Inr [1, 2]
   \<and> next_combo [1, 2] [1, 2] [0, 0] = Inl NoMoreCombosError"
proof -
  have gen: "(next_combo cur mx mn = Inl NoMoreCombosError \<longleftrightarrow> (\<forall>i < length cur. cur ! i = mx ! i))
      \<and> (\<forall>p < length cur. cur ! p < mx ! p \<and> (\<forall>j. p < j \<and> j < length cur \<longrightarrow> cur ! j = mx ! j)
            \<longrightarrow> next_combo cur mx mn = Inr (take p cur @ [cur ! p + 1] @ drop (Suc p) mn))"
    if h: "length mx = length cur" "length mn = length cur"
          "\<forall>i < length cur. mn ! i \<le> cur ! i \<and> cur ! i \<le> mx ! i"
  proof -
    have "next_combo cur mx mn = Inl NoMoreCombosError \<longleftrightarrow> (\<forall>i < length cur. \<not> cur ! i < mx ! i)"
      unfolding next_combo_def using next_combo_scan_exhausted [of "length cur" mx mn cur] h by simp
    moreover have "(\<forall>i < length cur. \<not> cur ! i < mx ! i) \<longleftrightarrow> (\<forall>i < length cur. cur ! i = mx ! i)"
      using h(3) by (metis less_irrefl order_le_less)
    moreover have "next_combo cur mx mn = Inr (take p cur @ [cur ! p + 1] @ drop (Suc p) mn)"
      if "p < length cur" "cur ! p < mx ! p" "\<forall>j. p < j \<and> j < length cur \<longrightarrow> cur ! j = mx ! j" for p
      unfolding next_combo_def
      using next_combo_scan_step [of "length cur" mx mn cur p] h that by simp
    ultimately show ?thesis by blast
  qed
  have ex: "next_combo [0, 0] [1, 2] [0, 0] = Inr [0, 1]"
    "next_combo [0, 1] [1, 2] [0, 0] = Inr [0, 2]"
    "next_combo [0, 2] [1, 2] [0, 0] = Inr [1, 0]"
    "next_combo [1, 0] [1, 2] [0, 0] = Inr [1, 1]"
    "next_combo [1, 1] [1, 2] [0, 0] = Inr [1, 2]"
    "next_combo [1, 2] [1, 2] [0, 0] = Inl NoMoreCombosError"
    by (simp_all add: next_combo_def upt_rec)
  from gen ex show ?thesis by blast
qed

theorem next_combo_counter_witness:
  "next_combo [3, 1, 5] [4, 1, 5] [0, 1, 2] = Inr [4, 1, 2]
   \<and> next_combo [4, 1, 5] [4, 1, 5] [0, 1, 2] = Inl NoMoreCombosError"
proof -
  have b1: "\<forall>i < length [3, 1, 5 :: int]. [0, 1, 2 :: int] ! i \<le> [3, 1, 5] ! i \<and> [3, 1, 5 :: int] ! i \<le> [4, 1, 5] ! i"
    by (simp add: less_Suc_eq nth_Cons' numeral_3_eq_3)
  have b2: "\<forall>i < length [4, 1, 5 :: int]. [0, 1, 2 :: int] ! i \<le> [4, 1, 5] ! i \<and> [4, 1, 5 :: int] ! i \<le> [4, 1, 5] ! i"
    by (simp add: less_Suc_eq nth_Cons' numeral_3_eq_3)
  have r: "\<forall>j. 0 < j \<and> j < length [3, 1, 5 :: int] \<longrightarrow> [3, 1, 5 :: int] ! j = [4, 1, 5] ! j"
    by (simp add: less_Suc_eq nth_Cons' numeral_3_eq_3)
  have a2: "\<forall>i < length [4, 1, 5 :: int]. [4, 1, 5 :: int] ! i = [4, 1, 5] ! i" by simp
  have l: "length [4, 1, 5 :: int] = length [3, 1, 5 :: int] \<and> length [0, 1, 2 :: int] = length [3, 1, 5 :: int]"
    "length [4, 1, 5 :: int] = length [4, 1, 5 :: int] \<and> length [0, 1, 2 :: int] = length [4, 1, 5 :: int]"
    by simp_all
  have c: "[3, 1, 5 :: int] ! 0 < [4, 1, 5] ! 0" "0 < length [3, 1, 5 :: int]" by simp_all
  from next_combo_counter [of "[4, 1, 5]" "[3, 1, 5]" "[0, 1, 2]"] l(1) b1
  have "\<forall>p < length [3, 1, 5 :: int]. [3, 1, 5 :: int] ! p < [4, 1, 5] ! p
           \<and> (\<forall>j. p < j \<and> j < length [3, 1, 5 :: int] \<longrightarrow> [3, 1, 5 :: int] ! j = [4, 1, 5] ! j)
            \<longrightarrow> next_combo [3, 1, 5] [4, 1, 5] [0, 1, 2]
                 = Inr (take p [3, 1, 5] @ [[3, 1, 5] ! p + 1] @ drop (Suc p) [0, 1, 2])"
    by blast
  with c r
  have one: "next_combo [3, 1, 5] [4, 1, 5] [0, 1, 2] = Inr (take 0 [3, 1, 5] @ [[3, 1, 5] ! 0 + 1] @ drop (Suc 0) [0, 1, 2])"
    by blast
  from next_combo_counter [of "[4, 1, 5]" "[4, 1, 5]" "[0, 1, 2]"] l(2) b2 a2
  have two: "next_combo [4, 1, 5] [4, 1, 5] [0, 1, 2] = Inl NoMoreCombosError"
    by blast
  from one two show ?thesis by simp
qed

section \<open>The running Pareto front\<close>

text \<open>
  Claim C1. The claim asks that after any sequence of \<open>update_front\<close> calls from the empty
  front no member dominates another and no solution dominated at its insertion is kept.
  The loop of \<open>update_front\<close> removes from the list it iterates over, so the member that
  follows a removed one is never compared. Inserting the fitness tuples
  \<open>(20,10,3,0)\<close>, \<open>(10,20,4,0)\<close>, \<open>(10,10,3,0)\<close> in this order leaves
  \<open>(10,20,4,0)\<close> in the front beside \<open>(10,10,3,0)\<close>, which dominates it; inserting
  \<open>(10,20,3,0)\<close> next appends it although the member \<open>(10,10,3,0)\<close> dominates it.
\<close>

theorem update_front_keeps_dominated_member:
  "insert_all (\<lambda>s. [[20, 10, 3, 0], [10, 20, 4, 0], [10, 10, 3, 0], [10, 20, 3, 0 :: int]] ! s) [0, 1, 2]
     = [(1, [10, 20, 4, 0]), (2, [10, 10, 3, 0])]
   \<and> dominates [10, 10, 3, 0 :: int] [10, 20, 4, 0]
   \<and> insert_all (\<lambda>s. [[20, 10, 3, 0], [10, 20, 4, 0], [10, 10, 3, 0], [10, 20, 3, 0 :: int]] ! s) [0, 1, 2, 3]
     = [(2, [10, 10, 3, 0]), (3, [10, 20, 3, 0])]
   \<and> dominates [10, 10, 3, 0 :: int] [10, 20, 3, 0]"
  by (simp add: insert_all_def update_front_def dominates_def)

section \<open>The TSP solver\<close>

text \<open>
  Claim C2. The claim asks that \<open>tsp\<close> return, for \<open>n \<ge> 2\<close> points, a tour starting at
  \<open>0\<close> whose cost is the minimum over all closed tours. On the five points with the
  symmetric distances below (they satisfy the triangle inequality) the solver returns the
  tour \<open>[0,1,2,3,4]\<close> of cost \<open>19\<close>, while the tour \<open>[0,3,2,1,4]\<close> costs \<open>18\<close>: once the
  first complete tour is known, the loop stops at the first candidate whose bound fails,
  although the bound of a later candidate, which depends on that candidate's own minimum
  edges, may still pass. For two points \<open>compute_lower_bound\<close> raises \<open>IndexError\<close>.
\<close>

theorem tsp_returns_suboptimal_tour:
  "tsp [[0, 5, 5, 5, 5], [5, 0, 2, 4, 4], [5, 2, 0, 2, 5], [5, 4, 2, 0, 5], [5, 4, 5, 5, 0]]
     = Inr ([0, 1, 2, 3, 4], Fin 19)
   \<and> closed_tour_cost
        [[0, 5, 5, 5, 5], [5, 0, 2, 4, 4], [5, 2, 0, 2, 5], [5, 4, 2, 0, 5], [5, 4, 5, 5, 0]]
        [0, 3, 2, 1, 4] = 18
   \<and> tsp [[0, 1], [1, 0]] = Inl IndexError"
  by code_simp

section \<open>Fitness evaluation\<close>

lemma map_err_Inr_iff:
  "map_err f xs = Inr ys \<longleftrightarrow> length ys = length xs \<and> (\<forall>i < length xs. f (xs ! i) = Inr (ys ! i))"
proof (induction xs arbitrary: ys)
  case Nil
  then show ?case by auto
next
  case (Cons x xs)
  show ?case
  proof (cases ys)
    case Nil
    then show ?thesis by (auto split: sum.splits)
  next
    case (Cons y ys')
    then show ?thesis using Cons.IH [of ys']
      by (auto split: sum.splits simp: nth_Cons' less_Suc_eq_0_disj)
  qed
qed

lemma fold_err_append:
  "fold_err f (xs @ ys) s = (case fold_err f xs s of Inl e \<Rightarrow> Inl e | Inr s' \<Rightarrow> fold_err f ys s')"
  by (induction xs arbitrary: s) (auto split: sum.splits)








lemma compute_clients_served_frame:
  "product_delivery s' = product_delivery s \<Longrightarrow> compute_clients_served e s' = compute_clients_served e s"
  by (simp add: compute_clients_served_def)








section \<open>The first-echelon distance\<close>

lemma entry_Inr: "entry m r c = Inr x \<Longrightarrow> x = m ! r ! c"
  by (auto simp: entry_def split: if_splits)

lemma map_err_entry_Inr:
  assumes "map_err (\<lambda>column. entry m r column) idx = Inr row"
  shows "row = map (\<lambda>column. m ! r ! column) idx"
proof (rule nth_equalityI)
  show "length row = length (map (\<lambda>column. m ! r ! column) idx)"
    using assms by (simp add: map_err_Inr_iff)
next
  fix i assume "i < length row"
  then have i: "i < length idx" using assms by (simp add: map_err_Inr_iff)
  then have "entry m r (idx ! i) = Inr (row ! i)" using assms by (simp add: map_err_Inr_iff)
  from entry_Inr [OF this] i show "row ! i = map (\<lambda>column. m ! r ! column) idx ! i" by simp
qed

lemma make_submatrix_Inr:
  assumes "make_submatrix m idx = Inr sub"
  shows "sub = submatrix m idx"
proof (rule nth_equalityI)
  show "length sub = length (submatrix m idx)"
    using assms by (simp add: make_submatrix_def submatrix_def map_err_Inr_iff)
next
  fix i assume "i < length sub"
  then have i: "i < length idx"
    using assms by (simp add: make_submatrix_def map_err_Inr_iff)
  then have "map_err (\<lambda>column. entry m (idx ! i) column) idx = Inr (sub ! i)"
    using assms by (simp add: make_submatrix_def map_err_Inr_iff)
  from map_err_entry_Inr [OF this] i show "sub ! i = submatrix m idx ! i"
    by (simp add: submatrix_def)
qed

lemma map_err_upt_Inr:
  "map_err f [0 ..< n] = Inr ys \<longleftrightarrow> length ys = n \<and> (\<forall>i < n. f i = Inr (ys ! i))"
  by (simp add: map_err_Inr_iff)

lemma served_flags:
  assumes "map_err (\<lambda>sat. entry sd sat p) [0 ..< satellite_nr e] = Inr fl"
  shows "filter (\<lambda>sat. fl ! sat) [0 ..< satellite_nr e] = served_satellites e sd p"
  unfolding served_satellites_def
proof (rule filter_cong [OF refl])
  fix sat assume "sat \<in> set [0 ..< satellite_nr e]"
  then have sat: "sat < satellite_nr e" by simp
  then have "entry sd sat p = Inr (fl ! sat)" using assms by (simp add: map_err_Inr_iff)
  from entry_Inr [OF this] show "fl ! sat = sd ! sat ! p" .
qed

lemma compute_first_echelon_indices_Inr:
  assumes "compute_first_echelon_indices e sd = Inr indices"
  shows "length indices = product_nr e
       \<and> (\<forall>i < product_nr e. indices ! i = i # map (\<lambda>sat. product_nr e + sat) (served_satellites e sd i))"
proof (intro conjI allI impI)
  show "length indices = product_nr e"
    using assms by (simp add: compute_first_echelon_indices_def map_err_Inr_iff)
next
  fix i assume i: "i < product_nr e"
  then have "(case map_err (\<lambda>sat. entry sd sat i) [0 ..< satellite_nr e] of
          Inl err \<Rightarrow> Inl err
        | Inr flags \<Rightarrow>
            Inr (i # map (\<lambda>sat. product_nr e + sat)
                             (filter (\<lambda>sat. flags ! sat) [0 ..< satellite_nr e]))) = Inr (indices ! i)"
    using assms unfolding compute_first_echelon_indices_def map_err_upt_Inr by blast
  then obtain fl where fl: "map_err (\<lambda>sat. entry sd sat i) [0 ..< satellite_nr e] = Inr fl"
    and ind: "indices ! i = i # map (\<lambda>sat. product_nr e + sat) (filter (\<lambda>sat. fl ! sat) [0 ..< satellite_nr e])"
    by (auto split: sum.splits)
  from ind served_flags [OF fl]
  show "indices ! i = i # map (\<lambda>sat. product_nr e + sat) (served_satellites e sd i)" by simp
qed

lemma first_echelon_tour_Inr:
  assumes "first_echelon_tour e (i # map (\<lambda>sat. product_nr e + sat) sats) = Inr r"
  shows "(case r of None \<Rightarrow> 0 | Some (tour, tspdist) \<Rightarrow> tspdist) = depot_distance e i sats"
proof -
  consider "sats = []" | a where "sats = [a]" | a b where "sats = [a, b]"
    | "length sats > 2"
    by (cases sats rule: list.exhaust; simp; metis length_0_conv length_Cons list.exhaust neq0_conv not_less_eq numeral_2_eq_2 Suc_less_eq zero_less_Suc)
  then show ?thesis
  proof cases
    case 1
    with assms show ?thesis by (auto simp: first_echelon_tour_def depot_distance_def)
  next
    case 2
    with assms show ?thesis
      by (auto simp: first_echelon_tour_def depot_distance_def split: sum.splits dest!: entry_Inr)
  next
    case 3
    with assms show ?thesis
      by (auto simp: first_echelon_tour_def depot_distance_def split: sum.splits dest!: entry_Inr)
  next
    case 4
    with assms show ?thesis
      by (auto simp: first_echelon_tour_def depot_distance_def tsp_finite_def tsp_cost_def
               split: sum.splits bound.splits prod.splits dest!: make_submatrix_Inr)
  qed
qed

lemma first_echelon_loop:
  assumes "\<forall>i < n. indices ! i = i # map (\<lambda>sat. product_nr e + sat) (sats i)"
    and "fold_err (first_echelon_step e indices) [0 ..< n] (routes0, d0) = Inr (routes, d)"
  shows "d = d0 + (\<Sum>i \<leftarrow> [0 ..< n]. depot_distance e i (sats i))"
  using assms
proof (induction n arbitrary: routes d)
  case 0
  then show ?case by simp
next
  case (Suc n)
  from Suc.prems(2) obtain r1 d1 where
    pre: "fold_err (first_echelon_step e indices) [0 ..< n] (routes0, d0) = Inr (r1, d1)" and
    step: "first_echelon_step e indices n (r1, d1) = Inr (routes, d)"
    by (auto simp: fold_err_append split: sum.splits)
  have d1: "d1 = d0 + (\<Sum>i \<leftarrow> [0 ..< n]. depot_distance e i (sats i))"
    using Suc.IH [OF _ pre] Suc.prems(1) by simp
  have idx: "indices ! n = n # map (\<lambda>sat. product_nr e + sat) (sats n)"
    using Suc.prems(1) by simp
  from step obtain r where r: "first_echelon_tour e (indices ! n) = Inr r"
    and d: "d = d1 + (case r of None \<Rightarrow> 0 | Some (tour, tspdist) \<Rightarrow> tspdist)"
    unfolding first_echelon_step_def
    by (auto split: sum.splits if_splits option.splits prod.splits)
  from first_echelon_tour_Inr [of e n "sats n" r] r idx
  have "(case r of None \<Rightarrow> 0 | Some (tour, tspdist) \<Rightarrow> tspdist) = depot_distance e n (sats n)"
    by simp
  with d d1 show ?case by simp
qed

text \<open>
  Claim C4, as the code has it. The list \<open>indices[i]\<close> that \<open>first_echelon_distances\<close>
  measures holds the depot and its satellites, so its length is the number of satellites
  plus one. When the call succeeds and the cached distance, if any, is the one of the cached
  satellite demand, the distance returned is the sum over the depots of: \<open>0\<close> for no
  satellite; twice the distance from the depot to the satellite for exactly one satellite;
  the triangle depot, first satellite, second satellite, depot for exactly two; and for
  three or more the cost that \<open>tsp\<close> returns on the submatrix of the depot and its
  satellites. The cache stays consistent.
\<close>

theorem first_echelon_distances_total:
  assumes "l1_cache_ok e s"
    and "satellite_demand e s = Inr sd"
    and "first_echelon_distances e s = Inr (d, s')"
  shows "d = (\<Sum>depot \<leftarrow> [0 ..< product_nr e]. depot_distance e depot (served_satellites e sd depot))
       \<and> l1_cache_ok e s'"
proof (cases "sat_demand s = Some sd")
  case True
  with assms show ?thesis
    by (auto simp: first_echelon_distances_def l1_cache_ok_def first_echelon_total_def)
next
  case False
  with assms obtain indices routes where
    ind: "compute_first_echelon_indices e sd = Inr indices" and
    loop: "fold_err (first_echelon_step e indices) [0 ..< product_nr e] ([], 0) = Inr (routes, d)" and
    s': "s' = s\<lparr> sat_demand := Some sd, l1_routes := routes, l1_distance := d \<rparr>"
    unfolding first_echelon_distances_def by (auto split: sum.splits prod.splits)
  from compute_first_echelon_indices_Inr [OF ind]
  have "\<forall>i < product_nr e. indices ! i = i # map (\<lambda>sat. product_nr e + sat) (served_satellites e sd i)"
    by simp
  from first_echelon_loop [OF this loop]
  have "d = (\<Sum>depot \<leftarrow> [0 ..< product_nr e]. depot_distance e depot (served_satellites e sd depot))"
    by simp
  then show ?thesis using s' by (simp add: l1_cache_ok_def first_echelon_total_def)
qed

theorem first_echelon_distances_total_witness:
  "first_echelon_distances instance_a solution_a
     = Inr (20, solution_a\<lparr> sat_demand := Some [[True, True], [True, False], [False, False]],
                            l1_routes := [[0, 1, 2], [1, 1]], l1_distance := 20 \<rparr>)
   \<and> served_satellites instance_a [[True, True], [True, False], [False, False]] 0 = [0, 1]
   \<and> served_satellites instance_a [[True, True], [True, False], [False, False]] 1 = [0]
   \<and> depot_distance instance_a 0 [0, 1] = 3 + 1 + 4
   \<and> depot_distance instance_a 1 [0] = 2 * 6
   \<and> (20 :: rat) = (\<Sum>depot \<leftarrow> [0 ..< product_nr instance_a].
                depot_distance instance_a depot
                  (served_satellites instance_a [[True, True], [True, False], [False, False]] depot))"
proof -
  have c: "l1_cache_ok instance_a solution_a" by code_simp
  have sd: "satellite_demand instance_a solution_a
              = Inr [[True, True], [True, False], [False, False]]" by code_simp
  have h: "first_echelon_distances instance_a solution_a
     = Inr (20, solution_a\<lparr> sat_demand := Some [[True, True], [True, False], [False, False]],
                            l1_routes := [[0, 1, 2], [1, 1]], l1_distance := 20 \<rparr>)" by code_simp
  have v: "served_satellites instance_a [[True, True], [True, False], [False, False]] 0 = [0, 1]"
    "served_satellites instance_a [[True, True], [True, False], [False, False]] 1 = [0]"
    "depot_distance instance_a 0 [0, 1] = 3 + 1 + 4"
    "depot_distance instance_a 1 [0] = 2 * 6"
    by code_simp+
  from first_echelon_distances_total [OF c sd h] h v show ?thesis by blast
qed

text \<open>
  Claim C4 as stated fails: it gives a depot with exactly one satellite the contribution
  \<open>0\<close> and a depot with exactly two satellites twice the distance between the two
  satellites. On \<open>instance_b\<close> (one depot; distances depot to satellites \<open>6\<close> and \<open>7\<close>,
  between the satellites \<open>1\<close>) the distance is \<open>12\<close> when only the first satellite is
  served and \<open>6 + 1 + 7\<close> when both are, not \<open>0\<close> and \<open>2\<close>.
\<close>

theorem first_echelon_single_satellite_counterexample:
  "satellite_demand instance_b solution_b1 = Inr [[True], [False]]
   \<and> served_satellites instance_b [[True], [False]] 0 = [0]
   \<and> map_sum id fst (first_echelon_distances instance_b solution_b1) = Inr 12
   \<and> map_sum id fst (first_echelon_distances instance_b solution_b1) \<noteq> Inr 0
   \<and> satellite_demand instance_b solution_b2 = Inr [[True], [True]]
   \<and> served_satellites instance_b [[True], [True]] 0 = [0, 1]
   \<and> map_sum id fst (first_echelon_distances instance_b solution_b2) = Inr (6 + 1 + 7)
   \<and> map_sum id fst (first_echelon_distances instance_b solution_b2)
         \<noteq> Inr (2 * (first_echelon instance_b ! 1 ! 2))"
  by code_simp

section \<open>Reading an instance file\<close>

lemma tab_neq_newline: "tab \<noteq> newline" "newline \<noteq> tab"
  by (simp_all add: tab_def newline_def)

lemma rstrip_tabs_line_of: "rstrip_tabs (line_of tokens) = line_of tokens"
  by (simp add: rstrip_tabs_def line_of_def tab_neq_newline)

lemma split_tabs_from_token:
  "tab \<notin> set t \<Longrightarrow> t \<noteq> [] \<Longrightarrow>
     split_tabs_from acc b (t @ rest) = split_tabs_from (acc @ t) False rest"
proof (induction t arbitrary: acc b)
  case Nil
  then show ?case by simp
next
  case (Cons c t)
  from Cons.prems have c: "c \<noteq> tab" by auto
  show ?case
  proof (cases "t = []")
    case True
    with c show ?thesis by simp
  next
    case False
    with Cons.prems Cons.IH [of "acc @ [c]" False] c show ?thesis by simp
  qed
qed

lemma split_tabs_from_tokens:
  "tokens \<noteq> [] \<Longrightarrow> list_all token_ok tokens \<Longrightarrow>
     split_tabs_from [] b (line_of tokens) = tokens_of_line tokens"
proof (induction tokens arbitrary: b)
  case Nil
  then show ?case by simp
next
  case (Cons t ts)
  then have t: "tab \<notin> set t" "t \<noteq> []" by (simp_all add: token_ok_def)
  show ?case
  proof (cases "ts = []")
    case True
    have "split_tabs_from [] b (t @ [newline]) = split_tabs_from t False [newline]"
      using split_tabs_from_token [OF t, of "[]" b "[newline]"] by simp
    then show ?thesis using True by (simp add: line_of_def tokens_of_line_def tab_neq_newline)
  next
    case False
    have l: "line_of (t # ts) = t @ tab # line_of ts"
      using False by (simp add: line_of_def)
    have "split_tabs_from [] b (t @ tab # line_of ts) = split_tabs_from t False (tab # line_of ts)"
      using split_tabs_from_token [OF t, of "[]" b "tab # line_of ts"] by simp
    also have "\<dots> = t # split_tabs_from [] True (line_of ts)" by simp
    also have "\<dots> = t # tokens_of_line ts" using Cons.IH [OF False] Cons.prems by simp
    finally show ?thesis using False l by (simp add: tokens_of_line_def)
  qed
qed

lemma split_line_of:
  "list_all token_ok tokens \<Longrightarrow> split_tabs (rstrip_tabs (line_of tokens)) = tokens_of_line tokens"
proof (cases "tokens = []")
  case True
  then show ?thesis
    by (simp add: rstrip_tabs_def split_tabs_def line_of_def tokens_of_line_def tab_neq_newline)
next
  case False
  assume "list_all token_ok tokens"
  with False show ?thesis
    by (simp add: rstrip_tabs_line_of split_tabs_def split_tabs_from_tokens)
qed

lemma py_nth_nat: "k < length xs \<Longrightarrow> py_nth xs (int k) = Inr (xs ! k)"
  by (simp add: py_nth_def)

lemma tokens_of_line_nth:
  "k < length tokens \<Longrightarrow>
     tokens_of_line tokens ! k = (if Suc k = length tokens then tokens ! k @ [newline] else tokens ! k)"
proof -
  assume k: "k < length tokens"
  then have ne: "tokens \<noteq> []" by auto
  show ?thesis
  proof (cases "Suc k = length tokens")
    case True
    then have "k = length tokens - 1" by simp
    then show ?thesis using ne True
      by (simp add: tokens_of_line_def nth_append last_conv_nth)
  next
    case False
    with k have "k < length tokens - 1" by simp
    then show ?thesis using ne False
      by (simp add: tokens_of_line_def nth_append nth_butlast)
  qed
qed

lemma length_tokens_of_line: "tokens \<noteq> [] \<Longrightarrow> length (tokens_of_line tokens) = length tokens"
  by (simp add: tokens_of_line_def)

lemma field_token:
  assumes "x < length data" and "data ! x = tokens_of_line tokens" and "y < length tokens"
    and "conv (tokens ! y) = Some v" and "conv (tokens ! y @ [newline]) = Some v"
  shows "field conv data (int x) (int y) = Inr v"
proof -
  have ne: "tokens \<noteq> []" using assms(3) by auto
  have "py_nth data (int x) = Inr (tokens_of_line tokens)"
    using assms(1,2) by (simp add: py_nth_nat)
  moreover have "py_nth (tokens_of_line tokens) (int y) = Inr (tokens_of_line tokens ! y)"
    using assms(3) ne by (simp add: py_nth_nat length_tokens_of_line)
  moreover have "conv (tokens_of_line tokens ! y) = Some v"
    using assms(3,4,5) by (simp add: tokens_of_line_nth)
  ultimately show ?thesis by (simp add: field_def bind_err_def convert_def)
qed

lemma map_err_all_Inr:
  "(\<And>x. x \<in> set xs \<Longrightarrow> f x = Inr (g x)) \<Longrightarrow> map_err f xs = Inr (map g xs)"
  by (induction xs) simp_all

lemma py_range_nat: "py_range (int a) (int b) = map int [a ..< b]"
proof (cases "a < b")
  case False
  then show ?thesis by (simp add: py_range_def)
next
  case True
  then show ?thesis
  proof (induction b)
    case 0
    then show ?case by simp
  next
    case (Suc b)
    show ?case
    proof (cases "a < b")
      case True
      have "[int a .. int (Suc b) - 1] = [int a .. int b - 1] @ [int b]"
        using True by (simp add: upto_rec2)
      with Suc.IH [OF True] True show ?thesis by (simp add: py_range_def)
    next
      case False
      with Suc.prems have "a = b" by simp
      then show ?thesis by (simp add: py_range_def)
    qed
  qed
qed

lemma notation_okD:
  "notation_ok conv shw xs \<Longrightarrow> x \<in> set xs \<Longrightarrow>
     token_ok (shw x) \<and> conv (shw x) = Some x \<and> conv (shw x @ [newline]) = Some x"
  by (simp add: notation_ok_def list_all_iff)

lemma notation_ok_append:
  "notation_ok conv shw (xs @ ys) \<longleftrightarrow> notation_ok conv shw xs \<and> notation_ok conv shw ys"
  by (simp add: notation_ok_def)

lemma block_read:
  assumes rows: "\<forall>i < length M. off + i < length data
                   \<and> data ! (off + i) = tokens_of_line (pre @ map shw (M ! i))"
    and width: "\<forall>row \<in> set M. length row = w"
    and ok: "notation_ok conv shw (concat M)"
  shows "map_err (\<lambda>x. map_err (\<lambda>y. field conv data x y)
                        (py_range (int (length pre)) (int (length pre + w))))
           (py_range (int off) (int (off + length M))) = Inr M"
proof -
  have cell: "field conv data (int (off + i)) (int (length pre + j)) = Inr (M ! i ! j)"
    if i: "i < length M" and j: "j < w" for i j
  proof -
    have len: "length (M ! i) = w" using width i by simp
    have mem: "M ! i ! j \<in> set (concat M)" using i j len by (auto intro!: bexI [of _ "M ! i"])
    note n = notation_okD [OF ok mem]
    have r: "off + i < length data" "data ! (off + i) = tokens_of_line (pre @ map shw (M ! i))"
      using rows i by simp_all
    have t: "(pre @ map shw (M ! i)) ! (length pre + j) = shw (M ! i ! j)"
      using j len by (simp add: nth_append)
    show ?thesis
      by (rule field_token [OF r(1) r(2)]) (use j len t n in simp_all)
  qed
  have row: "map_err (\<lambda>y. field conv data (int (off + i)) y)
               (py_range (int (length pre)) (int (length pre + w))) = Inr (M ! i)"
    if i: "i < length M" for i
  proof -
    have len: "length (M ! i) = w" using width i by simp
    have "map_err (\<lambda>y. field conv data (int (off + i)) y) (map int [length pre ..< length pre + w])
            = Inr (map (\<lambda>y. M ! i ! (nat y - length pre)) (map int [length pre ..< length pre + w]))"
    proof (rule map_err_all_Inr)
      fix y assume "y \<in> set (map int [length pre ..< length pre + w])"
      then obtain k where k: "y = int k" "length pre \<le> k" "k < length pre + w" by auto
      then have "k = length pre + (k - length pre)" "k - length pre < w" by simp_all
      with cell [OF i, of "k - length pre"] k
      show "field conv data (int (off + i)) y = Inr (M ! i ! (nat y - length pre))" by simp
    qed
    moreover have "map (\<lambda>y. M ! i ! (nat y - length pre)) (map int [length pre ..< length pre + w]) = M ! i"
      using len by (auto intro!: nth_equalityI simp: nat_int_add)
    ultimately show ?thesis unfolding py_range_nat by simp
  qed
  have "map_err (\<lambda>x. map_err (\<lambda>y. field conv data x y)
                        (py_range (int (length pre)) (int (length pre + w))))
           (map int [off ..< off + length M])
          = Inr (map (\<lambda>x. M ! (nat x - off)) (map int [off ..< off + length M]))"
  proof (rule map_err_all_Inr)
    fix x assume "x \<in> set (map int [off ..< off + length M])"
    then obtain k where k: "x = int k" "off \<le> k" "k < off + length M" by auto
    then have "k = off + (k - off)" "k - off < length M" by simp_all
    with row [of "k - off"] k
    show "map_err (\<lambda>y. field conv data x y) (py_range (int (length pre)) (int (length pre + w)))
            = Inr (M ! (nat x - off))" by simp
  qed
  moreover have "map (\<lambda>x. M ! (nat x - off)) (map int [off ..< off + length M]) = M"
    by (auto intro!: nth_equalityI simp: nat_int_add)
  ultimately show ?thesis unfolding py_range_nat by simp
qed

lemma py_nth_literal:
  "py_nth xs 1 = (if 1 < length xs then Inr (xs ! 1) else Inl IndexError)"
  "py_nth xs 2 = (if 2 < length xs then Inr (xs ! 2) else Inl IndexError)"
  "py_nth xs 3 = (if 3 < length xs then Inr (xs ! 3) else Inl IndexError)"
  "py_nth xs 4 = (if 4 < length xs then Inr (xs ! 4) else Inl IndexError)"
  by (auto simp: py_nth_def Let_def)

lemma vehicle_types_read:
  assumes "notation_ok float_of sf (map (\<lambda>ty. fst (snd ty)) types)"
    and "notation_ok int_of si (concat (map (\<lambda>ty. [fst ty, fst (snd (snd ty)), int (snd (snd (snd ty)))]) types))"
  shows "fold_err (vehicle_type_step float_of int_of)
           (map (\<lambda>ty. tokens_of_line (type_tokens sf si label ty)) types) (a, b, c)
         = Inr (a @ fst (expand_types types), b @ fst (snd (expand_types types)),
                c @ snd (snd (expand_types types)))"
  using assms
proof (induction types arbitrary: a b c)
  case Nil
  then show ?case by (simp add: expand_types_def)
next
  case (Cons ty types)
  obtain cap cpk emis quantity where ty: "ty = (cap, cpk, emis, quantity)" by (cases ty) auto
  from Cons.prems ty have
    f: "float_of (sf cpk) = Some cpk" and
    i: "int_of (si cap) = Some cap" "int_of (si emis) = Some emis"
       "int_of (si (int quantity) @ [newline]) = Some (int quantity)"
    by (simp_all add: notation_ok_def)
  have toks: "tokens_of_line (type_tokens sf si label ty)
                = [label, si cap, sf cpk, si emis, si (int quantity) @ [newline]]"
    by (simp add: ty type_tokens_def tokens_of_line_def)
  have step: "vehicle_type_step float_of int_of (tokens_of_line (type_tokens sf si label ty)) (a, b, c)
          = Inr (a @ replicate quantity cap, b @ replicate quantity cpk, c @ replicate quantity emis)"
    unfolding toks vehicle_type_step_def
    by (simp add: py_nth_literal bind_err_def convert_def f i)
  have rest: "notation_ok float_of sf (map (\<lambda>ty. fst (snd ty)) types)"
    "notation_ok int_of si (concat (map (\<lambda>ty. [fst ty, fst (snd (snd ty)), int (snd (snd (snd ty)))]) types))"
    using Cons.prems by (simp_all add: notation_ok_def)
  show ?case
    using step Cons.IH [OF rest] by (simp add: ty expand_types_def)
qed

lemma instance_file_data:
  assumes lab: "token_ok label"
    and fl: "notation_ok float_of sf (concat e1 @ concat e2 @ [l1c] @ map (\<lambda>ty. fst (snd ty)) types)"
    and it: "notation_ok int_of si ([int nd, int ns, int nc] @ concat dmd @ [l1e]
               @ concat (map (\<lambda>ty. [fst ty, fst (snd (snd ty)), int (snd (snd (snd ty)))]) types))"
  shows "map (\<lambda>line. split_tabs (rstrip_tabs line))
           (instance_file sf si label False (nd, ns, nc) e1 e2 dmd (l1c, l1e) types)
         = [tokens_of_line [si (int nd), si (int ns), si (int nc)]]
           @ map (\<lambda>row. tokens_of_line ([label] @ map sf row)) e1
           @ map (\<lambda>row. tokens_of_line ([label] @ map sf row)) e2
           @ map (\<lambda>row. tokens_of_line ([] @ map si row)) dmd
           @ [tokens_of_line [label, label, sf l1c, si l1e]]
           @ map (\<lambda>ty. tokens_of_line (type_tokens sf si label ty)) types"
proof -
  have f: "token_ok (sf x)" if "x \<in> set (concat e1 @ concat e2 @ [l1c] @ map (\<lambda>ty. fst (snd ty)) types)" for x
    using notation_okD [OF fl that] by simp
  have i: "token_ok (si x)" if "x \<in> set ([int nd, int ns, int nc] @ concat dmd @ [l1e]
               @ concat (map (\<lambda>ty. [fst ty, fst (snd (snd ty)), int (snd (snd (snd ty)))]) types))" for x
    using notation_okD [OF it that] by simp
  have h: "split_tabs (rstrip_tabs (line_of [si (int nd), si (int ns), si (int nc)]))
             = tokens_of_line [si (int nd), si (int ns), si (int nc)]"
    by (rule split_line_of) (simp add: i)
  have r1: "split_tabs (rstrip_tabs (line_of (label # map sf row))) = tokens_of_line ([label] @ map sf row)"
    if "row \<in> set e1 \<or> row \<in> set e2" for row
  proof -
    have "list_all token_ok (label # map sf row)"
      using that lab by (auto simp: list_all_iff intro!: f)
    from split_line_of [OF this] show ?thesis by simp
  qed
  have r3: "split_tabs (rstrip_tabs (line_of (map si row))) = tokens_of_line ([] @ map si row)"
    if "row \<in> set dmd" for row
  proof -
    have "list_all token_ok (map si row)"
      using that by (auto simp: list_all_iff intro!: i)
    from split_line_of [OF this] show ?thesis by simp
  qed
  have r4: "split_tabs (rstrip_tabs (line_of [label, label, sf l1c, si l1e]))
              = tokens_of_line [label, label, sf l1c, si l1e]"
    by (rule split_line_of) (simp add: lab f i)
  have r5: "split_tabs (rstrip_tabs (case ty of (cap, cpk, emis, quantity) \<Rightarrow>
                 line_of [label, si cap, sf cpk, si emis, si (int quantity)]))
              = tokens_of_line (type_tokens sf si label ty)"
    if "ty \<in> set types" for ty
  proof -
    obtain cap cpk emis quantity where ty: "ty = (cap, cpk, emis, quantity)" by (cases ty) auto
    have "list_all token_ok [label, si cap, sf cpk, si emis, si (int quantity)]"
      using that lab ty by (force simp: list_all_iff intro!: f i)
    from split_line_of [OF this] show ?thesis by (simp add: ty type_tokens_def)
  qed
  show ?thesis
    by (simp add: instance_file_def h r1 r3 r4 r5 cong: map_cong)
qed

text \<open>
  Claim C6, as the code has it. For an instance file laid out as \<open>instance_file\<close> with
  the demand matrix in columns \<open>0 .. depot_count - 1\<close> of the demand lines, matrices of the
  announced sizes, and conversions that read the notations of the file back,
  \<open>obtain_input_data\<close> returns the first-echelon matrix, the second-echelon matrix, the
  demand matrix, and the vehicle data with every vehicle type repeated quantity-many times.
\<close>

theorem obtain_input_data_reads_instance:
  assumes lab: "token_ok label"
    and size: "well_sized (nd, ns, nc) e1 e2 dmd"
    and fl: "notation_ok float_of sf (concat e1 @ concat e2 @ [l1c] @ map (\<lambda>ty. fst (snd ty)) types)"
    and it: "notation_ok int_of si ([int nd, int ns, int nc] @ concat dmd @ [l1e]
               @ concat (map (\<lambda>ty. [fst ty, fst (snd (snd ty)), int (snd (snd (snd ty)))]) types))"
  shows "obtain_input_data float_of int_of
           (instance_file sf si label False (nd, ns, nc) e1 e2 dmd (l1c, l1e) types)
         = Inr (e1, e2, dmd,
                (fst (expand_types types), fst (snd (expand_types types)),
                 snd (snd (expand_types types)), l1c, l1e))"
proof -
  define data where "data = [tokens_of_line [si (int nd), si (int ns), si (int nc)]]
           @ map (\<lambda>row. tokens_of_line ([label] @ map sf row)) e1
           @ map (\<lambda>row. tokens_of_line ([label] @ map sf row)) e2
           @ map (\<lambda>row. tokens_of_line ([] @ map si row)) dmd
           @ [tokens_of_line [label, label, sf l1c, si l1e]]
           @ map (\<lambda>ty. tokens_of_line (type_tokens sf si label ty)) types"
  have data: "map (\<lambda>line. split_tabs (rstrip_tabs line))
           (instance_file sf si label False (nd, ns, nc) e1 e2 dmd (l1c, l1e) types) = data"
    unfolding data_def by (rule instance_file_data [OF lab fl it])
  from size have len: "length e1 = nd + ns" "length e2 = ns + nc" "length dmd = nc"
    and wid: "\<forall>row \<in> set e1. length row = nd + ns" "\<forall>row \<in> set e2. length row = ns + nc"
             "\<forall>row \<in> set dmd. length row = nd"
    by (simp_all add: well_sized_def list_all_iff)
  have fl1: "notation_ok float_of sf (concat e1)" and fl2: "notation_ok float_of sf (concat e2)"
    and fl3: "notation_ok float_of sf [l1c]"
    and fl4: "notation_ok float_of sf (map (\<lambda>ty. fst (snd ty)) types)"
    using fl by (simp_all add: notation_ok_def)
  have it1: "notation_ok int_of si [int nd, int ns, int nc]" and it2: "notation_ok int_of si (concat dmd)"
    and it3: "notation_ok int_of si [l1e]"
    and it4: "notation_ok int_of si (concat (map (\<lambda>ty. [fst ty, fst (snd (snd ty)), int (snd (snd (snd ty)))]) types))"
    using it by (simp_all add: notation_ok_def)
  have hd: "0 < length data" "data ! 0 = tokens_of_line [si (int nd), si (int ns), si (int nc)]"
    by (simp_all add: data_def)
  have c0: "field int_of data 0 0 = Inr (int nd)"
    using field_token [OF hd, of 0 int_of "int nd"] it1 by (simp add: notation_ok_def)
  have c1: "field int_of data 0 1 = Inr (int ns)"
    using field_token [OF hd, of 1 int_of "int ns"] it1 by (simp add: notation_ok_def)
  have c2: "field int_of data 0 2 = Inr (int nc)"
    using field_token [OF hd, of 2 int_of "int nc"] it1 by (simp add: notation_ok_def)
  have b1: "map_err (\<lambda>x. map_err (\<lambda>y. field float_of data x y)
                        (py_range (int (length [label])) (int (length [label] + (nd + ns)))))
           (py_range (int 1) (int (1 + length e1))) = Inr e1"
    by (rule block_read [OF _ wid(1) fl1]) (simp add: data_def nth_append len)
  have b2: "map_err (\<lambda>x. map_err (\<lambda>y. field float_of data x y)
                        (py_range (int (length [label])) (int (length [label] + (ns + nc)))))
           (py_range (int (1 + (nd + ns))) (int (1 + (nd + ns) + length e2))) = Inr e2"
    by (rule block_read [OF _ wid(2) fl2]) (simp add: data_def nth_append len)
  have b3: "map_err (\<lambda>x. map_err (\<lambda>y. field int_of data x y)
                        (py_range (int (length ([] :: string list))) (int (length ([] :: string list) + nd))))
           (py_range (int (1 + (nd + ns) + (ns + nc))) (int (1 + (nd + ns) + (ns + nc) + length dmd))) = Inr dmd"
    by (rule block_read [OF _ wid(3) it2]) (simp add: data_def nth_append len)
  have l1: "1 + (nd + ns) + (ns + nc) + nc < length data"
    "data ! (1 + (nd + ns) + (ns + nc) + nc) = tokens_of_line [label, label, sf l1c, si l1e]"
    by (simp_all add: data_def nth_append len)
  have v1: "field float_of data (int (1 + (nd + ns) + (ns + nc) + nc)) 2 = Inr l1c"
    using field_token [OF l1, of 2 float_of l1c] fl3 by (simp add: notation_ok_def)
  have v2: "field int_of data (int (1 + (nd + ns) + (ns + nc) + nc)) 3 = Inr l1e"
    using field_token [OF l1, of 3 int_of l1e] it3 by (simp add: notation_ok_def)
  have sl: "py_slice_from data (int (1 + (nd + ns) + (ns + nc) + nc) + 1)
              = map (\<lambda>ty. tokens_of_line (type_tokens sf si label ty)) types"
  proof -
    have "int (1 + (nd + ns) + (ns + nc) + nc) + 1 = int (Suc (1 + (nd + ns) + (ns + nc) + nc))"
      by simp
    then have "py_slice_from data (int (1 + (nd + ns) + (ns + nc) + nc) + 1)
                 = drop (Suc (1 + (nd + ns) + (ns + nc) + nc)) data"
      unfolding py_slice_from_def by (simp only: nat_int) simp
    then show ?thesis by (simp add: data_def len)
  qed
  have v3: "fold_err (vehicle_type_step float_of int_of)
              (py_slice_from data (int (1 + (nd + ns) + (ns + nc) + nc) + 1)) ([], [], [])
            = Inr (fst (expand_types types), fst (snd (expand_types types)),
                   snd (snd (expand_types types)))"
    unfolding sl using vehicle_types_read [OF fl4 it4, of label "[]" "[]" "[]"] by simp
  have b1': "map_err (\<lambda>x. map_err (\<lambda>y. field float_of data x y) (py_range 1 (int nd + int ns + 1)))
               (py_range 1 (int nd + int ns + 1)) = Inr e1"
    using b1 by (simp add: len add.commute)
  have b2': "map_err (\<lambda>x. map_err (\<lambda>y. field float_of data x y) (py_range 1 (int ns + int nc + 1)))
               (py_range (1 + (int nd + int ns)) (int nd + int ns + (int ns + int nc) + 1)) = Inr e2"
    using b2 by (simp add: len add.commute add.left_commute)
  have b3': "map_err (\<lambda>x. map_err (\<lambda>y. field int_of data x y) (py_range 0 (int nd)))
               (py_range (1 + (int nd + int ns) + (int ns + int nc))
                  (1 + (int nd + int ns) + (int ns + int nc) + int nc)) = Inr dmd"
    using b3 by (simp add: len add.commute add.left_commute)
  have v1': "field float_of data (1 + (int nd + int ns) + (int ns + int nc) + int nc) 2 = Inr l1c"
    using v1 by (simp add: add.commute add.left_commute)
  have v2': "field int_of data (1 + (int nd + int ns) + (int ns + int nc) + int nc) 3 = Inr l1e"
    using v2 by (simp add: add.commute add.left_commute)
  have v3': "fold_err (vehicle_type_step float_of int_of)
              (py_slice_from data (1 + (int nd + int ns) + (int ns + int nc) + int nc + 1)) ([], [], [])
            = Inr (fst (expand_types types), fst (snd (expand_types types)),
                   snd (snd (expand_types types)))"
    using v3 by (simp add: add.commute add.left_commute)
  show ?thesis
    unfolding obtain_input_data_def data Let_def bind_err_def c0 c1 c2 sum.case
      b1' b2' b3' v1' v2' v3' prod.case ..
qed

theorem obtain_input_data_reads_instance_witness:
  "obtain_input_data float_decimal decimal
      (instance_file show_whole show_int ''x'' False (1, 2, 2)
            [[0, 6, 7], [6, 0, 1], [7, 1, 0]]
            [[0, 1, 2, 3], [1, 0, 3, 2], [2, 3, 0, 1], [3, 2, 1, 0]]
            [[5], [7]] (9, 4) [(10, 3, 2, 2)])
     = Inr ([[0, 6, 7], [6, 0, 1], [7, 1, 0]],
            [[0, 1, 2, 3], [1, 0, 3, 2], [2, 3, 0, 1], [3, 2, 1, 0]],
            [[5], [7]], ([10, 10], [3, 3], [2, 2], 9, 4))"
proof -
  have lab: "token_ok ''x''" by code_simp
  have size: "well_sized (1, 2, 2) [[0, 6, 7], [6, 0, 1], [7, 1, 0]]
            [[0, 1, 2, 3], [1, 0, 3, 2], [2, 3, 0, 1], [3, 2, 1, 0]] [[5], [7]]" by code_simp
  have fl: "notation_ok float_decimal show_whole
             (concat [[0, 6, 7], [6, 0, 1], [7, 1, 0]]
              @ concat [[0, 1, 2, 3], [1, 0, 3, 2], [2, 3, 0, 1], [3, 2, 1, 0]] @ [9]
              @ map (\<lambda>ty. fst (snd ty)) [(10 :: int, 3 :: rat, 2 :: int, 2 :: nat)])" by code_simp
  have it: "notation_ok decimal show_int
             ([int 1, int 2, int 2] @ concat [[5], [7]] @ [4]
               @ concat (map (\<lambda>ty. [fst ty, fst (snd (snd ty)), int (snd (snd (snd ty)))])
                           [(10 :: int, 3 :: rat, 2 :: int, 2 :: nat)]))" by code_simp
  have ex: "expand_types [(10, 3, 2, 2)] = ([10, 10], [3, 3], [2, 2])" by code_simp
  from obtain_input_data_reads_instance [OF lab size fl it] ex show ?thesis by simp
qed

text \<open>
  Claim C6 as stated puts the demand matrix in columns \<open>1 .. depot_count\<close>. The code reads
  columns \<open>0 .. depot_count - 1\<close>: for the instance with one depot, two satellites, two
  clients and the demands \<open>5\<close> and \<open>7\<close> written in column 1, it returns the labels of
  column 0 as demands when they are numbers, and raises \<open>ValueError\<close> when they are not.
\<close>

theorem obtain_input_data_labelled_demand_counterexample:
  "obtain_input_data float_decimal decimal
      (instance_file show_whole show_int ''1'' True (1, 2, 2)
            [[0, 6, 7], [6, 0, 1], [7, 1, 0]]
            [[0, 1, 2, 3], [1, 0, 3, 2], [2, 3, 0, 1], [3, 2, 1, 0]]
            [[5], [7]] (9, 4) [(10, 3, 2, 2)])
     = Inr ([[0, 6, 7], [6, 0, 1], [7, 1, 0]],
            [[0, 1, 2, 3], [1, 0, 3, 2], [2, 3, 0, 1], [3, 2, 1, 0]],
            [[1], [1]], ([10, 10], [3, 3], [2, 2], 9, 4))
   \<and> obtain_input_data float_decimal decimal
      (instance_file show_whole show_int ''c'' True (1, 2, 2)
            [[0, 6, 7], [6, 0, 1], [7, 1, 0]]
            [[0, 1, 2, 3], [1, 0, 3, 2], [2, 3, 0, 1], [3, 2, 1, 0]]
            [[5], [7]] (9, 4) [(10, 3, 2, 2)])
     = Inl ValueError"
  by code_simp

section \<open>Random computations and the mutation loop\<close>

lemma bnd_returns:
  "bnd m f r = Some (Inr (y, r'')) \<longleftrightarrow>
     (\<exists>x r'. m r = Some (Inr (x, r')) \<and> f x r' = Some (Inr (y, r'')))"
  by (auto simp: bnd_def split: option.splits sum.splits)

lemma ret_returns [simp]: "ret x r = Some (Inr (y, r')) \<longleftrightarrow> y = x \<and> r' = r"
  by (auto simp: ret_def)

lemma raise_returns [simp]: "raise e r \<noteq> Some (Inr v)"
  by (simp add: raise_def)

lemma no_return_returns [simp]: "no_return r \<noteq> Some v"
  by (simp add: no_return_def)

lemma lift_returns: "lift v r = Some (Inr (x, r')) \<longleftrightarrow> v = Inr x \<and> r' = r"
  by (cases v) (auto simp: lift_def)

lemma draw_returns: "\<exists>k r'. draw r = Some (Inr (k, r'))"
  by (cases r) (simp_all add: draw_def)

lemma choice_returns:
  "choice xs r = Some (Inr (x, r')) \<Longrightarrow> x \<in> set xs"
  by (auto simp: choice_def bnd_returns split: if_splits)

lemma choice_total: "xs \<noteq> [] \<Longrightarrow> \<exists>x r'. choice xs r = Some (Inr (x, r'))"
  using draw_returns [of r] by (auto simp: choice_def bnd_returns)

lemma randint_returns:
  "randint a b r = Some (Inr (x, r')) \<Longrightarrow> a \<le> x \<and> x \<le> b"
proof -
  assume h: "randint a b r = Some (Inr (x, r'))"
  then have ab: "a \<le> b" by (auto simp: randint_def split: if_splits)
  from h obtain k where "x = a + int (k mod nat (b - a + 1))"
    by (auto simp: randint_def bnd_returns split: if_splits)
  moreover have "k mod nat (b - a + 1) < nat (b - a + 1)" using ab by simp
  ultimately show ?thesis using ab by linarith
qed

lemma shuffle_loop_returns:
  "shuffle_loop idxs x r = Some (Inr (y, r')) \<Longrightarrow> \<forall>i \<in> set idxs. i < length x \<Longrightarrow> mset y = mset x"
proof (induction idxs arbitrary: x r)
  case Nil
  then show ?case by simp
next
  case (Cons i rest)
  from Cons.prems(1) obtain k r1 where
    step: "shuffle_loop rest (x[i := x ! (k mod (i + 1)), k mod (i + 1) := x ! i]) r1 = Some (Inr (y, r'))"
    by (auto simp: bnd_returns Let_def)
  have i: "i < length x" using Cons.prems(2) by simp
  have "k mod (i + 1) < i + 1" by simp
  with i have j: "k mod (i + 1) < length x" by linarith
  have "mset (x[i := x ! (k mod (i + 1)), k mod (i + 1) := x ! i]) = mset x"
    using mset_swap [OF j i] by simp
  moreover have "mset y = mset (x[i := x ! (k mod (i + 1)), k mod (i + 1) := x ! i])"
    by (rule Cons.IH [OF step]) (use Cons.prems(2) in simp)
  ultimately show ?case by simp
qed

lemma shuffle_returns: "shuffle x r = Some (Inr (y, r')) \<Longrightarrow> mset y = mset x"
  unfolding shuffle_def by (erule shuffle_loop_returns) simp

lemma set_entry_Inr:
  "set_entry m row col v = Inr m' \<Longrightarrow>
     row < length m \<and> col < length (m ! row) \<and> m' = m[row := (m ! row)[col := v]]"
  by (auto simp: set_entry_def split: if_splits)

lemma filter_err_Inr:
  "filter_err p xs = Inr ys \<Longrightarrow> ys = filter (\<lambda>x. p x = Inr True) xs \<and> (\<forall>x \<in> set xs. \<exists>b. p x = Inr b)"
  by (induction xs arbitrary: ys) (auto split: sum.splits if_splits)

lemma mut_switch_products_changes:
  assumes "mut_switch_products e s r = Some (Inr (s', r'))"
  shows "\<exists>client product v.
           client < length (product_delivery s) \<and> product < length (product_delivery s ! client)
         \<and> v \<noteq> product_delivery s ! client ! product \<and> 1 \<le> v \<and> v \<le> vehicle_nr e
         \<and> product_delivery s'
             = (product_delivery s)[client := (product_delivery s ! client)[product := v]]
         \<and> starting_points s' = starting_points s"
proof -
  from assms obtain cps client product r1 vc veh r2 pd' where
    vc: "lift (if vehicle_nr e = 0 then Inr []
               else (case entry (product_delivery s) client product of
                       Inl err \<Rightarrow> Inl err
                     | Inr cur \<Rightarrow>
                         Inr (map (\<lambda>ve. ve + 1)
                                (filter (\<lambda>ve. ve + 1 \<noteq> cur) [0 ..< vehicle_nr e])))) r1
          = Some (Inr (vc, r1))" and
    ch: "choice vc r1 = Some (Inr (veh, r2))" and
    se: "set_entry (product_delivery s) client product veh = Inr pd'" and
    s': "s' = s\<lparr> product_delivery := pd', log_s := log_s s @ [''Switch products''] \<rparr>"
    unfolding mut_switch_products_def
    by (auto simp: bnd_returns lift_returns split: prod.splits)
  from choice_returns [OF ch] have mem: "veh \<in> set vc" .
  then have "vc \<noteq> []" by auto
  with vc obtain cur where cur: "entry (product_delivery s) client product = Inr cur"
    and vcs: "vc = map (\<lambda>ve. ve + 1) (filter (\<lambda>ve. ve + 1 \<noteq> cur) [0 ..< vehicle_nr e])"
    by (auto simp: lift_returns split: if_splits sum.splits)
  from cur have c: "cur = product_delivery s ! client ! product"
    by (rule entry_Inr)
  from mem vcs have v: "veh \<noteq> cur" "1 \<le> veh" "veh \<le> vehicle_nr e" by auto
  from set_entry_Inr [OF se] s' c v show ?thesis by auto
qed

lemma mutation_wrapper_3_changes:
  assumes "mutation_wrapper fuel e 3 s r = Some (Inr (s', r'))"
  shows "product_delivery s' \<noteq> product_delivery s"
proof -
  from assms have "mut_switch_products e s r = Some (Inr (s', r'))"
    by (simp add: mutation_wrapper_def)
  from mut_switch_products_changes [OF this] obtain client product v where
    c: "client < length (product_delivery s)" "product < length (product_delivery s ! client)"
       "v \<noteq> product_delivery s ! client ! product"
       "product_delivery s'
             = (product_delivery s)[client := (product_delivery s ! client)[product := v]]"
    by blast
  then have "product_delivery s' ! client ! product = v" by simp
  with c(3) show ?thesis by auto
qed

lemma mutation_while_in_bounds:
  assumes "mutation_while fuel e original muts i s r = Some (Inr (out, r'))"
    and "3 \<in> set muts"
    and "i \<le> length muts"
    and "solution_eq s original \<longrightarrow> 3 \<notin> set (take i muts)"
    and "\<forall>p < length muts. muts ! p = 3 \<longrightarrow> i \<le> p + 1"
  shows "\<exists>j s2. out = Some (j, s2) \<and> j \<le> length muts
           \<and> (\<forall>p < length muts. muts ! p = 3 \<longrightarrow> j \<le> p + 1)"
  using assms
proof (induction fuel e original muts i s arbitrary: r rule: mutation_while.induct)
  case (1 fuel e original muts i s)
  show ?case
  proof (cases "solution_eq s original")
    case False
    with "1.prems" show ?thesis by (simp add: mutation_while.simps [of fuel e original muts i s])
  next
    case True
    with "1.prems"(4) have not3: "3 \<notin> set (take i muts)" by simp
    have lt: "i < length muts"
    proof (rule ccontr)
      assume "\<not> i < length muts"
      then have "take i muts = muts" by simp
      with not3 "1.prems"(2) show False by simp
    qed
    from "1.prems"(1) True lt obtain s1 r1 where
      op: "mutation_wrapper fuel e (muts ! i) s r = Some (Inr (s1, r1))" and
      rest: "mutation_while fuel e original muts (i + 1) s1 r1 = Some (Inr (out, r'))"
      by (auto simp add: mutation_while.simps [of fuel e original muts i s] bnd_returns)
    have tk: "take (i + 1) muts = take i muts @ [muts ! i]"
      using lt by (simp add: take_Suc_conv_app_nth)
    have a: "solution_eq s1 original \<longrightarrow> 3 \<notin> set (take (i + 1) muts)"
    proof
      assume eq: "solution_eq s1 original"
      have "muts ! i \<noteq> 3"
      proof
        assume "muts ! i = 3"
        with op have "mutation_wrapper fuel e 3 s r = Some (Inr (s1, r1))" by simp
        from mutation_wrapper_3_changes [OF this]
        have "product_delivery s1 \<noteq> product_delivery s" .
        with eq True show False by (simp add: solution_eq_def)
      qed
      with not3 tk show "3 \<notin> set (take (i + 1) muts)" by simp
    qed
    have b: "\<forall>p < length muts. muts ! p = 3 \<longrightarrow> i + 1 \<le> p + 1"
    proof (intro allI impI)
      fix p assume p: "p < length muts" "muts ! p = 3"
      show "i + 1 \<le> p + 1"
      proof (rule ccontr)
        assume "\<not> i + 1 \<le> p + 1"
        then have "p < i" by simp
        with p have "3 \<in> set (take i muts)"
          by (metis in_set_conv_nth length_take min_less_iff_conj nth_take)
        with not3 show False by simp
      qed
    qed
    show ?thesis
      by (rule "1.IH" [OF True lt rest "1.prems"(2) _ a b]) (use lt in simp)
  qed
qed

lemma cells_mem: "(c, p) \<in> set (cells e) \<longleftrightarrow> c < client_nr e \<and> p < product_nr e"
  by (force simp: cells_def)

lemma filter_err_total:
  "\<forall>x \<in> set xs. \<exists>b. p x = Inr b \<Longrightarrow> filter_err p xs = Inr (filter (\<lambda>x. p x = Inr True) xs)"
  by (induction xs) (auto split: sum.splits)

lemma mut_switch_products_total:
  assumes "switch_products_applicable e s"
  shows "\<exists>s' r'. mut_switch_products e s r = Some (Inr (s', r'))"
proof -
  from assms have v: "2 \<le> vehicle_nr e"
    and ex: "\<exists>cp \<in> set (cells e). case cp of (c, p) \<Rightarrow> demand e ! c ! p > 0"
    and dm: "client_nr e \<le> length (demand e)"
            "\<forall>c < client_nr e. product_nr e \<le> length (demand e ! c)"
    and pd: "client_nr e \<le> length (product_delivery s)"
            "\<forall>c < client_nr e. product_nr e \<le> length (product_delivery s ! c)"
    by (auto simp: switch_products_applicable_def list_ex_iff list_all_length)
  let ?p = "\<lambda>cp. case cp of (c, p) \<Rightarrow>
                              (case entry (demand e) c p of
                                 Inl err \<Rightarrow> Inl err
                               | Inr d \<Rightarrow> Inr (d > 0))"
  have ent: "entry (demand e) c p = Inr (demand e ! c ! p)" if "(c, p) \<in> set (cells e)" for c p
    using that dm by (auto simp: cells_mem entry_def)
  have tot: "\<forall>x \<in> set (cells e). \<exists>b. ?p x = Inr b"
    using ent by auto
  have f1: "filter_err ?p (cells e) = Inr (filter (\<lambda>x. ?p x = Inr True) (cells e))"
    by (rule filter_err_total [OF tot])
  have ne: "filter (\<lambda>x. ?p x = Inr True) (cells e) \<noteq> []"
  proof -
    from ex obtain c p where cp: "(c, p) \<in> set (cells e)" "demand e ! c ! p > 0" by auto
    then have "?p (c, p) = Inr True" using ent by simp
    with cp(1) have "(c, p) \<in> set (filter (\<lambda>x. ?p x = Inr True) (cells e))" by simp
    then show ?thesis by (metis empty_iff list.set(1))
  qed
  from choice_total [OF ne, of r] obtain cp r1 where
    ch1: "choice (filter (\<lambda>x. ?p x = Inr True) (cells e)) r = Some (Inr (cp, r1))" by blast
  obtain client product where cpe: "cp = (client, product)" by (cases cp)
  from choice_returns [OF ch1] cpe have inr: "client < client_nr e" "product < product_nr e"
    by (auto simp: cells_mem)
  then have rng: "client < length (product_delivery s)" "product < length (product_delivery s ! client)"
    using pd by (auto intro: less_le_trans)
  let ?cur = "product_delivery s ! client ! product"
  let ?vc = "map Suc (filter (\<lambda>ve. Suc ve \<noteq> ?cur) [0 ..< vehicle_nr e])"
  have "\<exists>ve < vehicle_nr e. ve + 1 \<noteq> ?cur"
  proof (cases "?cur = 1")
    case True
    then show ?thesis using v by (intro exI [of _ 1]) simp
  next
    case False
    then show ?thesis using v by (intro exI [of _ 0]) simp
  qed
  then have vne: "?vc \<noteq> []" by (auto simp: filter_empty_conv)
  from choice_total [OF vne, of r1] obtain veh r2 where
    ch2: "choice ?vc r1 = Some (Inr (veh, r2))" by blast
  have se: "set_entry (product_delivery s) client product veh
              = Inr ((product_delivery s)[client := (product_delivery s ! client)[product := veh]])"
    using rng by (simp add: set_entry_def)
  have en: "entry (product_delivery s) client product = Inr ?cur"
    using rng by (simp add: entry_def)
  have v0: "vehicle_nr e \<noteq> 0" using v by simp
  show ?thesis
    unfolding mut_switch_products_def
    by (simp add: bnd_def lift_def ret_def f1 ch1 cpe v0 en ch2 se)
qed

text \<open>
  Claim C10. With at least two vehicles, a pair of positive demand and matrices of the right
  shape, \<open>mut_switch_products\<close> returns and changes the solution: one cell of the product
  delivery gets a vehicle different from the one it had. Hence the loop of \<open>mutation\<close>
  that applies the shuffled operators while the solution equals its copy never reads
  \<open>muts[i]\<close> out of range when the operators it applies return: it ends with an index
  \<open>i \<le> 5\<close>, at the latest right after the position of operator 3.
\<close>

theorem mutation_reaches_switch_products:
  "(switch_products_applicable e s \<longrightarrow>
      (\<exists>s' r' client product v.
          mut_switch_products e s r = Some (Inr (s', r'))
        \<and> v \<noteq> product_delivery s ! client ! product
        \<and> product_delivery s'
             = (product_delivery s)[client := (product_delivery s ! client)[product := v]]
        \<and> \<not> solution_eq s' s))
   \<and> (shuffle [1, 2, 3, 4, 5] r0 = Some (Inr (muts, r1))
        \<and> mutation_wrapper fuel e (muts ! 0) s r1 = Some (Inr (s1, r2))
        \<and> mutation_while fuel e s muts 1 s1 r2 = Some (Inr (out, r3))
      \<longrightarrow> (\<exists>i s2. out = Some (i, s2) \<and> i \<le> 5
                  \<and> (\<forall>p < 5. muts ! p = 3 \<longrightarrow> i \<le> p + 1)))"
proof (intro conjI impI)
  assume app: "switch_products_applicable e s"
  from mut_switch_products_total [OF app, of r] obtain s' r' where
    run: "mut_switch_products e s r = Some (Inr (s', r'))" by blast
  from mut_switch_products_changes [OF run] obtain client product v where
    c: "client < length (product_delivery s)" "product < length (product_delivery s ! client)"
       "v \<noteq> product_delivery s ! client ! product"
       "product_delivery s'
             = (product_delivery s)[client := (product_delivery s ! client)[product := v]]"
    by blast
  then have "product_delivery s' ! client ! product = v" by simp
  with c(3) have "product_delivery s' \<noteq> product_delivery s" by auto
  then have "\<not> solution_eq s' s" by (simp add: solution_eq_def)
  with run c show "\<exists>s' r' client product v.
          mut_switch_products e s r = Some (Inr (s', r'))
        \<and> v \<noteq> product_delivery s ! client ! product
        \<and> product_delivery s'
             = (product_delivery s)[client := (product_delivery s ! client)[product := v]]
        \<and> \<not> solution_eq s' s" by blast
next
  assume h: "shuffle [1, 2, 3, 4, 5] r0 = Some (Inr (muts, r1))
        \<and> mutation_wrapper fuel e (muts ! 0) s r1 = Some (Inr (s1, r2))
        \<and> mutation_while fuel e s muts 1 s1 r2 = Some (Inr (out, r3))"
  then have ms: "mset muts = mset [1, 2, 3, 4, 5 :: nat]" using shuffle_returns by blast
  have "length muts = size (mset muts)" by simp
  also have "\<dots> = 5" unfolding ms by simp
  finally have len: "length muts = 5" .
  have "set muts = set [1, 2, 3, 4, 5 :: nat]" using ms by (rule mset_eq_setD)
  then have three: "3 \<in> set muts" by simp
  have a: "solution_eq s1 s \<longrightarrow> 3 \<notin> set (take 1 muts)"
  proof
    assume eq: "solution_eq s1 s"
    have "muts ! 0 \<noteq> 3"
    proof
      assume "muts ! 0 = 3"
      with h have "mutation_wrapper fuel e 3 s r1 = Some (Inr (s1, r2))" by simp
      from mutation_wrapper_3_changes [OF this]
      have "product_delivery s1 \<noteq> product_delivery s" .
      with eq show False by (simp add: solution_eq_def)
    qed
    then show "3 \<notin> set (take 1 muts)" using len by (cases muts) auto
  qed
  have b: "\<forall>p < length muts. muts ! p = 3 \<longrightarrow> 1 \<le> p + 1" by simp
  from h have w: "mutation_while fuel e s muts 1 s1 r2 = Some (Inr (out, r3))" by simp
  from mutation_while_in_bounds [OF w three _ a b] len
  show "\<exists>i s2. out = Some (i, s2) \<and> i \<le> 5 \<and> (\<forall>p < 5. muts ! p = 3 \<longrightarrow> i \<le> p + 1)"
    by simp
qed

theorem mutation_reaches_switch_products_witness:
  "switch_products_applicable instance_a solution_d
   \<and> (\<exists>s' r' client product v.
          mut_switch_products instance_a solution_d [] = Some (Inr (s', r'))
        \<and> v \<noteq> product_delivery solution_d ! client ! product
        \<and> product_delivery s'
             = (product_delivery solution_d)
                 [client := (product_delivery solution_d ! client)[product := v]]
        \<and> \<not> solution_eq s' solution_d)
   \<and> shuffle [1, 2, 3, 4, 5 :: nat] [] = Some (Inr ([2, 3, 4, 5, 1], []))
   \<and> mutation_while 5 instance_a solution_d [2, 3, 4, 5, 1] 1
        (solution_d\<lparr> log_s := [''Order'', ''Switch satellites''] \<rparr>) []
      = Some (Inr (Some (2, solution_d\<lparr> product_delivery := [[2, 0], [1, 2]],
                            log_s := [''Order'', ''Switch satellites'', ''Switch products''] \<rparr>), []))
   \<and> (\<exists>i s2. Some (2, solution_d\<lparr> product_delivery := [[2, 0], [1, 2]],
                            log_s := [''Order'', ''Switch satellites'', ''Switch products''] \<rparr>)
                 = Some (i, s2) \<and> i \<le> 5
               \<and> (\<forall>p < 5. [2, 3, 4, 5, 1] ! p = (3 :: nat) \<longrightarrow> i \<le> p + 1))"
proof -
  have app: "switch_products_applicable instance_a solution_d" by code_simp
  have sh: "shuffle [1, 2, 3, 4, 5 :: nat] [] = Some (Inr ([2, 3, 4, 5, 1], []))" by code_simp
  have first: "mutation_wrapper 5 instance_a ([2, 3, 4, 5, 1] ! 0) solution_d []
                 = Some (Inr (solution_d\<lparr> log_s := [''Order'', ''Switch satellites''] \<rparr>, []))"
    by code_simp
  have loop: "mutation_while 5 instance_a solution_d [2, 3, 4, 5, 1] 1
        (solution_d\<lparr> log_s := [''Order'', ''Switch satellites''] \<rparr>) []
      = Some (Inr (Some (2, solution_d\<lparr> product_delivery := [[2, 0], [1, 2]],
                            log_s := [''Order'', ''Switch satellites'', ''Switch products''] \<rparr>), []))"
    by code_simp
  from mutation_reaches_switch_products
         [where e = instance_a and s = solution_d and r = "[]" and ?r0.0 = "[]"
            and muts = "[2, 3, 4, 5, 1]" and ?r1.0 = "[]" and fuel = 5
            and ?s1.0 = "solution_d\<lparr> log_s := [''Order'', ''Switch satellites''] \<rparr>"
            and ?r2.0 = "[]"
            and out = "Some (2, solution_d\<lparr> product_delivery := [[2, 0], [1, 2]],
                            log_s := [''Order'', ''Switch satellites'', ''Switch products''] \<rparr>)"
            and ?r3.0 = "[]"]
       app sh first loop
  show ?thesis by blast
qed

end
